theory Spec2Isabelle
  imports Main "HOL-Library.Word"
begin

unbundle bit_operations_syntax

section \<open>libworkspace.c: the workspace preload library\<close>

text \<open>
  A shallow embedding of \<^verbatim>\<open>src/internal/vm/embed/libworkspace.c\<close>. Every function of the
  source is a HOL function of the same name. The mutable globals (\<^verbatim>\<open>in_hook\<close>,
  \<^verbatim>\<open>vsock_fd\<close>) and the local file system are fields of an explicit state that each
  function takes and returns; what the library cannot control (the C library it delegates
  to, the working directory, the socket and the host behind it) is a read-only environment.
\<close>

subsection \<open>Constants\<close>

type_synonym byte = "8 word"

text \<open>From the source.\<close>

definition OP_STAT :: byte where "OP_STAT = 1"
definition OP_READ :: byte where "OP_READ = 2"
definition STATUS_OK :: byte where "STATUS_OK = 0"
definition STATUS_NOENT :: byte where "STATUS_NOENT = 1"

definition WORKSPACE_PREFIX :: string where "WORKSPACE_PREFIX = ''/workspace/''"
definition WORKSPACE_PREFIX_LEN :: nat where "WORKSPACE_PREFIX_LEN = 11"
definition WORKSPACE_DIR :: string where "WORKSPACE_DIR = ''/workspace''"
definition CACHE_DIR :: string where "CACHE_DIR = ''/tmp/.wscache/''"
definition CACHE_DIR_LEN :: nat where "CACHE_DIR_LEN = 14"
definition READ_CHUNK_SIZE :: "32 word" where "READ_CHUNK_SIZE = 1024 * 1024"

text \<open>
  From the system headers the source includes (Linux, x86-64, glibc): they are not part of
  the repository, the values are those of \<^verbatim>\<open>fcntl.h\<close>, \<^verbatim>\<open>limits.h\<close>,
  \<^verbatim>\<open>unistd.h\<close>, \<^verbatim>\<open>sys/stat.h\<close> and \<^verbatim>\<open>errno.h\<close>. \<open>O_TMPFILE\<close> is the
  macro \<^verbatim>\<open>__O_TMPFILE\<close> of the source, which glibc defines as
  \<^verbatim>\<open>020000000 | __O_DIRECTORY\<close>: it holds the bit of \<^verbatim>\<open>O_DIRECTORY\<close>.
\<close>

definition PATH_MAX :: nat where "PATH_MAX = 4096"
definition AT_FDCWD :: int where "AT_FDCWD = - 100"
definition AT_SYMLINK_NOFOLLOW :: "32 word" where "AT_SYMLINK_NOFOLLOW = 0x100"
definition O_RDONLY :: "32 word" where "O_RDONLY = 0"
definition O_WRONLY :: "32 word" where "O_WRONLY = 1"
definition O_RDWR :: "32 word" where "O_RDWR = 2"
definition O_CREAT :: "32 word" where "O_CREAT = 0x40"
definition O_EXCL :: "32 word" where "O_EXCL = 0x80"
definition O_TRUNC :: "32 word" where "O_TRUNC = 0x200"
definition O_APPEND :: "32 word" where "O_APPEND = 0x400"
definition O_DIRECTORY :: "32 word" where "O_DIRECTORY = 0x10000"
definition O_TMPFILE :: "32 word" where "O_TMPFILE = 0x410000"
definition W_OK :: "32 word" where "W_OK = 2"
definition S_IFMT :: "32 word" where "S_IFMT = 0xF000"
definition S_IFDIR :: "32 word" where "S_IFDIR = 0x4000"
definition S_IFREG :: "32 word" where "S_IFREG = 0x8000"
definition EROFS :: int where "EROFS = 30"
definition ENOENT :: int where "ENOENT = 2"
definition EBADF :: int where "EBADF = 9"
definition EFAULT :: int where "EFAULT = 14"
definition EEXIST :: int where "EEXIST = 17"
definition ENOTDIR :: int where "ENOTDIR = 20"
definition EISDIR :: int where "EISDIR = 21"

definition S_ISDIR :: "32 word \<Rightarrow> bool" where
  "S_ISDIR m = (m AND S_IFMT = S_IFDIR)"

subsection \<open>Results, file status, the local file system\<close>

text \<open>
  A call of the C library returns a value, or \<^verbatim>\<open>-1\<close> (a null stream for
  \<^verbatim>\<open>fopen\<close>) with \<^verbatim>\<open>errno\<close> set: \<open>Err e\<close> is the failure with \<^verbatim>\<open>errno = e\<close>.
  \<^verbatim>\<open>errno\<close> is read only after a failure, so it is part of the result.
\<close>

datatype 'a result = Err int | Ok 'a

fun is_ok :: "'a result \<Rightarrow> bool" where
  "is_ok (Ok v) = True"
| "is_ok (Err e) = False"

text \<open>The fields of \<^verbatim>\<open>struct stat\<close> the source writes; \<^verbatim>\<open>memset\<close> zeroes the others.\<close>

record struct_stat =
  st_mode :: "32 word"
  st_nlink :: "64 word"
  st_size :: "64 word"
  st_mtime :: "64 word"
  st_blksize :: "64 word"
  st_blocks :: "64 word"

datatype node = File "byte list" | Dir

text \<open>
  The local file system below the library: a map from the place of an object (the names
  on the way to it from the root directory) to the object. The root, the empty list of
  names, is always a directory. Symbolic links, hard links, permissions and mount points
  are outside the model. \<open>plan\<close> is what the kernel will do to the next calls that can
  fail for a reason outside the model (\<^verbatim>\<open>mkdir\<close>, \<^verbatim>\<open>mkstemp\<close>, \<^verbatim>\<open>write\<close>,
  \<^verbatim>\<open>rename\<close>), one entry per call: \<open>0\<close> makes the call fail, \<open>n > 0\<close> lets it through
  (a \<^verbatim>\<open>write\<close> then takes at most \<open>n\<close> bytes); with no entry left every call goes
  through in full. \<open>tmp_suffix\<close> is the six characters \<^verbatim>\<open>mkstemp\<close> puts in place of
  \<^verbatim>\<open>XXXXXX\<close>.
\<close>

record os =
  fs :: "string list \<rightharpoonup> node"
  plan :: "nat list"
  tmp_suffix :: string

text \<open>
  One socket exchange as the host end behaves: the return values of the coming
  \<^verbatim>\<open>send\<close> calls (none left: every byte offered is taken), and the data the coming
  \<^verbatim>\<open>recv\<close> calls deliver, segment by segment (an empty segment, or none left: the peer
  closed or the receive timed out).
\<close>

record wire =
  sends :: "int list"
  recvs :: "byte list list"

text \<open>
  The environment. \<open>real_\<close>\<dots> are the C library's functions that \<^verbatim>\<open>dlsym\<close> resolves,
  left unspecified; \<open>cwd\<close> is the working directory \<^verbatim>\<open>getcwd\<close> reports, \<open>fd_link\<close>
  the target of \<^verbatim>\<open>/proc/self/fd/<fd>\<close>, \<open>socket_fd i\<close> and \<open>connect_ok i\<close> what the
  \<open>i\<close>-th \<^verbatim>\<open>socket\<close> call returns and whether its \<^verbatim>\<open>connect\<close> succeeds, and
  \<open>host i msg\<close> the exchange the host runs for the \<open>i\<close>-th request, of payload \<open>msg\<close>.
\<close>

record env =
  real_openat :: "os \<Rightarrow> int \<Rightarrow> string option \<Rightarrow> 32 word \<Rightarrow> 32 word \<Rightarrow> int result \<times> os"
  real_fstatat :: "os \<Rightarrow> int \<Rightarrow> string option \<Rightarrow> 32 word \<Rightarrow> struct_stat result"
  real_faccessat :: "os \<Rightarrow> int \<Rightarrow> string option \<Rightarrow> 32 word \<Rightarrow> 32 word \<Rightarrow> unit result"
  real_fopen :: "os \<Rightarrow> string option \<Rightarrow> string \<Rightarrow> int result \<times> os"
  real_fdopen :: "os \<Rightarrow> int \<Rightarrow> string \<Rightarrow> int result \<times> os"
  cwd :: "string option"
  fd_link :: "int \<Rightarrow> string option"
  socket_fd :: "nat \<Rightarrow> int"
  connect_ok :: "nat \<Rightarrow> bool"
  host :: "nat \<Rightarrow> byte list \<Rightarrow> wire"

text \<open>
  The state: the file system, the two globals of the source, the number of \<^verbatim>\<open>socket\<close>
  calls made so far and the payloads of the requests put on the wire so far, in order.
\<close>

record world =
  os :: os
  in_hook :: bool
  vsock_fd :: int
  nsock :: nat
  calls :: "byte list list"

subsection \<open>Path helpers\<close>

definition getcwd :: "env \<Rightarrow> string option" where
  "getcwd E = (case cwd E of None \<Rightarrow> None
               | Some d \<Rightarrow> if length d + 1 > PATH_MAX then None else Some d)"

definition readlink_fd :: "env \<Rightarrow> int \<Rightarrow> string option" where
  "readlink_fd E dirfd = (case fd_link E dirfd of None \<Rightarrow> None
               | Some d \<Rightarrow> Some (take (PATH_MAX - 1) d))"

definition resolve_path :: "env \<Rightarrow> int \<Rightarrow> string option \<Rightarrow> string option" where
  "resolve_path E dirfd pathname =
     (case pathname of
        None \<Rightarrow> None
      | Some p \<Rightarrow>
          if take 1 p = ''/'' then (if length p \<ge> PATH_MAX then None else Some p)
          else
            (case (if dirfd = AT_FDCWD then getcwd E else readlink_fd E dirfd) of
               None \<Rightarrow> None
             | Some dirpath \<Rightarrow>
                 let resolved = dirpath @ ''/'' @ p
                 in if length resolved \<ge> PATH_MAX then None else Some resolved))"

definition is_workspace_path :: "string \<Rightarrow> string option" where
  "is_workspace_path resolved =
     (if take WORKSPACE_PREFIX_LEN resolved = WORKSPACE_PREFIX
      then Some (drop WORKSPACE_PREFIX_LEN resolved)
      else if resolved = WORKSPACE_DIR then Some ''''
      else None)"

definition cache_path_for :: "string \<Rightarrow> string option" where
  "cache_path_for rel =
     (let buf = CACHE_DIR @ rel in if length buf \<ge> PATH_MAX then None else Some buf)"

subsection \<open>Vsock communication\<close>

definition vsock_connect :: "env \<Rightarrow> world \<Rightarrow> int \<times> world" where
  "vsock_connect E w =
     (if vsock_fd w \<ge> 0 then (0, w)
      else
        let fd = socket_fd E (nsock w); w1 = w\<lparr>nsock := nsock w + 1\<rparr>
        in if fd < 0 then (- 1, w1)
           else if \<not> connect_ok E (nsock w) then (- 1, w1)
           else (0, w1\<lparr>vsock_fd := fd\<rparr>))"

definition vsock_disconnect :: "world \<Rightarrow> world" where
  "vsock_disconnect w = (if vsock_fd w \<ge> 0 then w\<lparr>vsock_fd := - 1\<rparr> else w)"

text \<open>
  \<^verbatim>\<open>send_all\<close>: each turn of the loop is one \<^verbatim>\<open>send\<close>, which takes the next planned
  return value; the result is whether all \<open>n\<close> bytes went out, and the plan left.
\<close>

fun send_all :: "int list \<Rightarrow> nat \<Rightarrow> bool \<times> int list" where
  "send_all [] n = (True, [])"
| "send_all (s # ss) n =
     (if n = 0 then (True, s # ss)
      else if s \<le> 0 then (False, ss)
      else send_all ss (n - min (nat s) n))"

text \<open>
  \<^verbatim>\<open>recv_all\<close>: each turn of the loop is one \<^verbatim>\<open>recv\<close>, which delivers at most \<open>n\<close>
  bytes of the segment at the head; the result is the \<open>n\<close> bytes and the data left.
\<close>

fun recv_all :: "byte list list \<Rightarrow> nat \<Rightarrow> (byte list \<times> byte list list) option" where
  "recv_all [] n = (if n = 0 then Some ([], []) else None)"
| "recv_all (s # ss) n =
     (if n = 0 then Some ([], s # ss)
      else if s = [] then None
      else if length s \<le> n then
        (case recv_all ss (n - length s) of
           None \<Rightarrow> None
         | Some (bs, rest) \<Rightarrow> Some (s @ bs, rest))
      else Some (take n s, drop n s # ss))"

text \<open>Big-endian packing and unpacking, as the source writes them out byte by byte.\<close>

definition be16 :: "16 word \<Rightarrow> byte list" where
  "be16 v = [ucast (drop_bit 8 v AND 0xFF), ucast (v AND 0xFF)]"

definition be32 :: "32 word \<Rightarrow> byte list" where
  "be32 v = [ucast (drop_bit 24 v AND 0xFF), ucast (drop_bit 16 v AND 0xFF),
             ucast (drop_bit 8 v AND 0xFF), ucast (v AND 0xFF)]"

definition be64 :: "64 word \<Rightarrow> byte list" where
  "be64 v = [ucast (drop_bit 56 v AND 0xFF), ucast (drop_bit 48 v AND 0xFF),
             ucast (drop_bit 40 v AND 0xFF), ucast (drop_bit 32 v AND 0xFF),
             ucast (drop_bit 24 v AND 0xFF), ucast (drop_bit 16 v AND 0xFF),
             ucast (drop_bit 8 v AND 0xFF), ucast (v AND 0xFF)]"

definition rd32 :: "byte list \<Rightarrow> nat \<Rightarrow> 32 word" where
  "rd32 b i = push_bit 24 (ucast (b ! i)) OR push_bit 16 (ucast (b ! (i + 1))) OR
              push_bit 8 (ucast (b ! (i + 2))) OR ucast (b ! (i + 3))"

definition rd64 :: "byte list \<Rightarrow> nat \<Rightarrow> 64 word" where
  "rd64 b i = push_bit 56 (ucast (b ! i)) OR push_bit 48 (ucast (b ! (i + 1))) OR
              push_bit 40 (ucast (b ! (i + 2))) OR push_bit 32 (ucast (b ! (i + 3))) OR
              push_bit 24 (ucast (b ! (i + 4))) OR push_bit 16 (ucast (b ! (i + 5))) OR
              push_bit 8 (ucast (b ! (i + 6))) OR ucast (b ! (i + 7))"

text \<open>
  \<^verbatim>\<open>send_request\<close>, which sends and receives on \<^verbatim>\<open>vsock_fd\<close>. On a descriptor that
  is not open (\<^verbatim>\<open>-1\<close>) the first \<^verbatim>\<open>send\<close> fails and nothing reaches the host.
  Otherwise the request is recorded in \<open>calls\<close>, then the frame goes out and the
  response frame comes in. \<open>None\<close> is the source's \<^verbatim>\<open>NULL\<close>. (\<^verbatim>\<open>malloc\<close> is taken
  to succeed.)
\<close>

definition send_request :: "env \<Rightarrow> world \<Rightarrow> byte list \<Rightarrow> byte list option \<times> world" where
  "send_request E w msg =
     (if vsock_fd w < 0 then (None, w)
      else
      let x = host E (length (calls w)) msg;
          w1 = w\<lparr>calls := calls w @ [msg]\<rparr>
      in case send_all (sends x) 4 of
           (False, s1) \<Rightarrow> (None, w1)
         | (True, s1) \<Rightarrow>
             (case send_all s1 (length msg) of
                (False, s2) \<Rightarrow> (None, w1)
              | (True, s2) \<Rightarrow>
                  (case recv_all (recvs x) 4 of
                     None \<Rightarrow> (None, w1)
                   | Some (len_buf, r1) \<Rightarrow>
                       let resp_len = rd32 len_buf 0
                       in if resp_len = 0 \<or> resp_len > 16 * 1024 * 1024 then (None, w1)
                          else (case recv_all r1 (unat resp_len) of
                                  None \<Rightarrow> (None, w1)
                                | Some (resp, r2) \<Rightarrow> (Some resp, w1)))))"

subsection \<open>Remote file operations\<close>

definition path_bytes :: "string \<Rightarrow> byte list" where
  "path_bytes rel =
     (let path_len = (of_nat (length rel) :: 16 word)
      in be16 path_len @ map of_char (take (unat path_len) rel))"

definition stat_request :: "string \<Rightarrow> byte list" where
  "stat_request rel = OP_STAT # path_bytes rel"

definition read_request :: "string \<Rightarrow> 64 word \<Rightarrow> 32 word \<Rightarrow> byte list" where
  "read_request rel offset len = OP_READ # path_bytes rel @ be64 offset @ be32 len"

definition parse_stat :: "byte list \<Rightarrow> struct_stat" where
  "parse_stat resp =
     (let mode = rd32 resp 1; size = rd64 resp 5; mtime = rd64 resp 13; is_dir = resp ! 21
      in \<lparr>st_mode = (if is_dir \<noteq> 0 then mode OR S_IFDIR else mode OR S_IFREG),
          st_nlink = (if is_dir \<noteq> 0 then 2 else 1),
          st_size = size,
          st_mtime = mtime,
          st_blksize = 4096,
          st_blocks = (size + 511) div 512\<rparr>)"

definition remote_stat :: "env \<Rightarrow> world \<Rightarrow> string \<Rightarrow> struct_stat option \<times> world" where
  "remote_stat E w rel =
     (case vsock_connect E w of
        (rc, w1) \<Rightarrow>
          if rc < 0 then (None, w1)
          else
            (case send_request E w1 (stat_request rel) of
               (None, w2) \<Rightarrow> (None, vsock_disconnect w2)
             | (Some resp, w2) \<Rightarrow>
                 if length resp < 1 \<or> resp ! 0 \<noteq> STATUS_OK then (None, w2)
                 else if length resp < 22 then (None, w2)
                 else (Some (parse_stat resp), w2)))"

definition remote_read_chunk ::
  "env \<Rightarrow> world \<Rightarrow> string \<Rightarrow> 64 word \<Rightarrow> 32 word \<Rightarrow> byte list option \<times> world" where
  "remote_read_chunk E w rel offset len =
     (case vsock_connect E w of
        (rc, w1) \<Rightarrow>
          if rc < 0 then (None, w1)
          else
            (case send_request E w1 (read_request rel offset len) of
               (None, w2) \<Rightarrow> (None, vsock_disconnect w2)
             | (Some resp, w2) \<Rightarrow>
                 if length resp < 1 \<or> resp ! 0 \<noteq> STATUS_OK then (None, w2)
                 else if length resp < 5 then (Some [], w2)
                 else
                   let resp_len = (of_nat (length resp) :: 32 word);
                       bytes_read = rd32 resp 1;
                       bytes_read = (if bytes_read > resp_len - 5 then resp_len - 5
                                     else bytes_read);
                       bytes_read = (if bytes_read > len then len else bytes_read)
                   in (Some (take (unat bytes_read) (drop 5 resp)), w2)))"

subsection \<open>The local system calls\<close>

text \<open>
  How the kernel reads a path. \<open>components\<close> are the names between the slashes (several
  slashes count as one, a trailing slash adds no name). \<open>walk\<close> follows them from a
  place: every step starts in a directory; \<^verbatim>\<open>.\<close> stays, \<^verbatim>\<open>..\<close> goes one up, a name goes
  one down. The place it arrives at need not hold an object. \<open>namei\<close> is the walk of an
  absolute path from the root (the library passes the kernel no other path: each one
  starts with \<^verbatim>\<open>/tmp/.wscache\<close>). \<open>lookup\<close> is the object a path names, a path with a
  trailing slash naming directories only; \<open>file_at\<close> is the place and the content of the
  regular file a path names.
\<close>

fun comps :: "string \<Rightarrow> string \<Rightarrow> string list" where
  "comps acc [] = (if acc = [] then [] else [acc])"
| "comps acc (c # cs) =
     (if c = CHR ''/'' then (if acc = [] then comps [] cs else acc # comps [] cs)
      else comps (acc @ [c]) cs)"

definition components :: "string \<Rightarrow> string list" where
  "components p = comps [] p"

definition node_at :: "os \<Rightarrow> string list \<Rightarrow> node option" where
  "node_at k q = (if q = [] then Some Dir else fs k q)"

fun walk :: "os \<Rightarrow> string list \<Rightarrow> string list \<Rightarrow> string list option" where
  "walk k cur [] = Some cur"
| "walk k cur (c # cs) =
     (if node_at k cur \<noteq> Some Dir then None
      else if c = ''.'' then walk k cur cs
      else if c = ''..'' then walk k (butlast cur) cs
      else walk k (cur @ [c]) cs)"

definition namei :: "os \<Rightarrow> string \<Rightarrow> string list option" where
  "namei k p = (if take 1 p = ''/'' then walk k [] (components p) else None)"

definition lookup :: "os \<Rightarrow> string \<Rightarrow> node option" where
  "lookup k p =
     (case namei k p of
        None \<Rightarrow> None
      | Some q \<Rightarrow>
          (case node_at k q of
             Some (File b) \<Rightarrow> if last p = CHR ''/'' then None else Some (File b)
           | r \<Rightarrow> r))"

definition file_at :: "os \<Rightarrow> string \<Rightarrow> (string list \<times> byte list) option" where
  "file_at k p =
     (case namei k p of
        None \<Rightarrow> None
      | Some q \<Rightarrow>
          (case node_at k q of
             Some (File b) \<Rightarrow> if last p = CHR ''/'' then None else Some (q, b)
           | r \<Rightarrow> None))"

text \<open>
  The system calls the cache manager makes: they are the kernel's, not the repository's.
  \<^verbatim>\<open>mkdir\<close> and \<^verbatim>\<open>mkstemp\<close> make an object at a place that holds none, in a directory that
  exists; \<^verbatim>\<open>write\<close> appends to a regular file; \<^verbatim>\<open>rename\<close> moves a regular file to a
  place that holds no directory (the library renames nothing else: with a directory as
  the source the call is let fail); \<^verbatim>\<open>unlink\<close> removes a regular file. A descriptor of
  the temporary file is the file's path (nothing else renames or removes it while the
  download runs), so \<^verbatim>\<open>close\<close> does nothing here.
\<close>

definition next_choice :: "os \<Rightarrow> nat option \<times> os" where
  "next_choice k = (case plan k of [] \<Rightarrow> (None, k) | c # cs \<Rightarrow> (Some c, k\<lparr>plan := cs\<rparr>))"

definition sys_mkdir :: "os \<Rightarrow> string \<Rightarrow> int \<times> os" where
  "sys_mkdir k p =
     (case next_choice k of
        (c, k1) \<Rightarrow>
          if c = Some 0 then (- 1, k1)
          else
            (case namei k1 p of
               None \<Rightarrow> (- 1, k1)
             | Some q \<Rightarrow>
                 if node_at k1 q \<noteq> None then (- 1, k1)
                 else (0, k1\<lparr>fs := (fs k1)(q \<mapsto> Dir)\<rparr>)))"

definition sys_mkstemp :: "os \<Rightarrow> string \<Rightarrow> string option \<times> os" where
  "sys_mkstemp k tmpl =
     (case next_choice k of
        (c, k1) \<Rightarrow>
          if c = Some 0 then (None, k1)
          else if length tmpl < 6 \<or> drop (length tmpl - 6) tmpl \<noteq> ''XXXXXX'' then (None, k1)
          else
            let name = take (length tmpl - 6) tmpl @ tmp_suffix k1
            in (case namei k1 name of
                  None \<Rightarrow> (None, k1)
                | Some q \<Rightarrow>
                    if node_at k1 q \<noteq> None \<or> last name = CHR ''/'' then (None, k1)
                    else (Some name, k1\<lparr>fs := (fs k1)(q \<mapsto> File [])\<rparr>)))"

definition sys_write :: "os \<Rightarrow> string \<Rightarrow> byte list \<Rightarrow> int \<times> os" where
  "sys_write k p bs =
     (case next_choice k of
        (c, k1) \<Rightarrow>
          (case file_at k1 p of
             None \<Rightarrow> (- 1, k1)
           | Some (q, old) \<Rightarrow>
               (case c of
                  None \<Rightarrow> (int (length bs), k1\<lparr>fs := (fs k1)(q \<mapsto> File (old @ bs))\<rparr>)
                | Some n \<Rightarrow>
                    if n = 0 then (- 1, k1)
                    else (int (min n (length bs)),
                          k1\<lparr>fs := (fs k1)(q \<mapsto> File (old @ take n bs))\<rparr>))))"

definition sys_rename :: "os \<Rightarrow> string \<Rightarrow> string \<Rightarrow> int \<times> os" where
  "sys_rename k src dst =
     (case next_choice k of
        (c, k1) \<Rightarrow>
          if c = Some 0 then (- 1, k1)
          else
            (case file_at k1 src of
               None \<Rightarrow> (- 1, k1)
             | Some (s, b) \<Rightarrow>
                 (case namei k1 dst of
                    None \<Rightarrow> (- 1, k1)
                  | Some d \<Rightarrow>
                      if last dst = CHR ''/'' \<or> node_at k1 d = Some Dir then (- 1, k1)
                      else if s = d then (0, k1)
                      else (0, k1\<lparr>fs := (fs k1)(d \<mapsto> File b, s := None)\<rparr>))))"

definition sys_unlink :: "os \<Rightarrow> string \<Rightarrow> os" where
  "sys_unlink k p =
     (case file_at k p of None \<Rightarrow> k | Some (q, old) \<Rightarrow> k\<lparr>fs := (fs k)(q := None)\<rparr>)"

subsection \<open>Cache management\<close>

definition mkdirs :: "os \<Rightarrow> string \<Rightarrow> os" where
  "mkdirs k path =
     foldl (\<lambda>k1 i. if path ! i = CHR ''/'' then snd (sys_mkdir k1 (take i path)) else k1)
       (snd (sys_mkdir k ''/tmp/.wscache''))
       [CACHE_DIR_LEN ..< length (take (PATH_MAX - 1) path)]"

text \<open>The inner loop of \<^verbatim>\<open>ensure_cached_file\<close>: \<^verbatim>\<open>write\<close> until the chunk is out.\<close>

function write_chunk :: "os \<Rightarrow> string \<Rightarrow> byte list \<Rightarrow> bool \<times> os" where
  "write_chunk k p bs =
     (if bs = [] then (True, k)
      else
        (case sys_write k p bs of
           (n, k1) \<Rightarrow> if n \<le> 0 then (False, k1) else write_chunk k1 p (drop (nat n) bs)))"
  by pat_completeness auto
termination
  by (relation "measure (\<lambda>(k, p, bs). length bs)") auto

text \<open>What follows the download loop: \<^verbatim>\<open>close\<close>, then the rename into place.\<close>

definition finish_download :: "world \<Rightarrow> string \<Rightarrow> string \<Rightarrow> int \<times> world" where
  "finish_download w tmp_path cache_path =
     (case sys_rename (os w) tmp_path cache_path of
        (rc, k) \<Rightarrow>
          if rc < 0 then (- 1, w\<lparr>os := sys_unlink k tmp_path\<rparr>)
          else (0, w\<lparr>os := k\<rparr>))"

lemma remote_read_chunk_length:
  "remote_read_chunk E w rel offset len = (Some chunk, w1) \<Longrightarrow> length chunk \<le> unat len"
  by (auto simp: remote_read_chunk_def Let_def not_less word_le_nat_alt
      split: prod.splits if_splits option.splits intro: min.coboundedI2)

lemma word_sub_progress:
  fixes d :: "64 word"
  assumes "0 < n" "n \<le> unat d"
  shows "unat (d - of_nat n) < unat d"
  by (metis (no_types, lifting) assms(1,2) leD le_unat_uoi
    linorder_le_less_linear not_gr_zero sub_wrap unsigned_0
    word_less_eq_iff_unsigned)

lemma want_le:
  fixes d :: "64 word"
  shows "unat (if d < ucast READ_CHUNK_SIZE
                 then (ucast d :: 32 word) else READ_CHUNK_SIZE) \<le> unat d"
  by (simp add: READ_CHUNK_SIZE_def unsigned_ucast_eq take_bit_eq_mod not_less word_le_nat_alt)

lemma download_progress:
  fixes file_size offset :: "64 word"
  assumes "chunk \<noteq> []"
    and "length chunk \<le> unat (if file_size - offset < ucast READ_CHUNK_SIZE
                 then (ucast (file_size - offset) :: 32 word) else READ_CHUNK_SIZE)"
  shows "unat (file_size - (offset + of_nat (length chunk))) < unat (file_size - offset)"
proof -
  have "length chunk \<le> unat (file_size - offset)"
    using assms(2) want_le [of "file_size - offset"] by (rule order_trans)
  moreover have "0 < length chunk" using assms(1) by simp
  ultimately have "unat (file_size - offset - of_nat (length chunk)) < unat (file_size - offset)"
    by (rule word_sub_progress [rotated])
  then show ?thesis by (simp add: diff_diff_eq)
qed

text \<open>
  The download loop of \<^verbatim>\<open>ensure_cached_file\<close>, from \<^verbatim>\<open>while (offset < file_size)\<close> to
  the function's end. (\<^verbatim>\<open>malloc\<close> is taken to succeed.)
\<close>

function download ::
  "env \<Rightarrow> world \<Rightarrow> string \<Rightarrow> string \<Rightarrow> string \<Rightarrow> 64 word \<Rightarrow> 64 word \<Rightarrow> int \<times> world" where
  "download E w rel cache_path tmp_path offset file_size =
     (if offset < file_size then
        (case remote_read_chunk E w rel offset
                (if file_size - offset < ucast READ_CHUNK_SIZE
                 then ucast (file_size - offset) else READ_CHUNK_SIZE) of
           (None, w1) \<Rightarrow> (- 1, w1\<lparr>os := sys_unlink (os w1) tmp_path\<rparr>)
         | (Some chunk, w1) \<Rightarrow>
             if chunk = [] then finish_download w1 tmp_path cache_path
             else
               (case write_chunk (os w1) tmp_path chunk of
                  (False, k) \<Rightarrow> (- 1, w1\<lparr>os := sys_unlink k tmp_path\<rparr>)
                | (True, k) \<Rightarrow>
                    download E (w1\<lparr>os := k\<rparr>) rel cache_path tmp_path
                      (offset + of_nat (length chunk)) file_size))
      else finish_download w tmp_path cache_path)"
  by pat_completeness auto

termination download
  apply (relation "measure (\<lambda>(E, w, rel, cp, tmp, offset, file_size). unat (file_size - offset))")
   apply simp
  apply (simp only: in_measure prod.case)
  apply (rule download_progress)
   apply assumption
  apply (erule remote_read_chunk_length [OF sym])
  done

declare download.simps [simp del]
declare write_chunk.simps [simp del]

definition ensure_cached_file :: "env \<Rightarrow> world \<Rightarrow> string \<Rightarrow> int \<times> world" where
  "ensure_cached_file E w rel =
     (case cache_path_for rel of
        None \<Rightarrow> (- 1, w)
      | Some cache_path \<Rightarrow>
          if is_ok (real_fstatat E (os w) AT_FDCWD (Some cache_path) 0) then (0, w)
          else
            (case remote_stat E w rel of
               (None, w1) \<Rightarrow> (- 1, w1)
             | (Some remote_st, w1) \<Rightarrow>
                 if S_ISDIR (st_mode remote_st)
                 then (0, w1\<lparr>os := snd (sys_mkdir (mkdirs (os w1) cache_path) cache_path)\<rparr>)
                 else
                   (case sys_mkstemp (mkdirs (os w1) cache_path)
                           (take (PATH_MAX - 1) (cache_path @ ''.XXXXXX'')) of
                      (None, k) \<Rightarrow> (- 1, w1\<lparr>os := k\<rparr>)
                    | (Some tmp_path, k) \<Rightarrow>
                        download E (w1\<lparr>os := k\<rparr>) rel cache_path tmp_path 0
                          (st_size remote_st))))"

definition ensure_cached_stat :: "env \<Rightarrow> world \<Rightarrow> string \<Rightarrow> struct_stat option \<times> world" where
  "ensure_cached_stat E w rel =
     (case cache_path_for rel of
        None \<Rightarrow> (None, w)
      | Some cache_path \<Rightarrow>
          (case real_fstatat E (os w) AT_FDCWD (Some cache_path) 0 of
             Ok st \<Rightarrow> (Some st, w)
           | Err e \<Rightarrow> remote_stat E w rel))"

subsection \<open>Intercepted functions\<close>

text \<open>
  A delegation to the C library: the call runs on the file system and its result is
  returned as it is.
\<close>

definition delegate :: "world \<Rightarrow> 'a result \<times> os \<Rightarrow> 'a result \<times> world" where
  "delegate w r = (fst r, w\<lparr>os := snd r\<rparr>)"

text \<open>
  The prologue of the open functions: \<open>va\<close> is the variadic argument, read when the
  flags have a bit of \<^verbatim>\<open>O_CREAT | __O_TMPFILE\<close> (so also under \<^verbatim>\<open>O_DIRECTORY\<close> alone);
  the mode is \<open>0\<close> otherwise.
\<close>

definition va_mode :: "32 word \<Rightarrow> 32 word \<Rightarrow> 32 word" where
  "va_mode flags va = (if flags AND (O_CREAT OR O_TMPFILE) \<noteq> 0 then va else 0)"


definition openat ::
  "env \<Rightarrow> world \<Rightarrow> int \<Rightarrow> string option \<Rightarrow> 32 word \<Rightarrow> 32 word \<Rightarrow> int result \<times> world" where
  "openat E w dirfd pathname flags va =
     (let mode = va_mode flags va
      in if in_hook w \<or> pathname = None
         then delegate w (real_openat E (os w) dirfd pathname flags mode)
         else
           (case resolve_path E dirfd pathname of
              None \<Rightarrow> delegate w (real_openat E (os w) dirfd pathname flags mode)
            | Some resolved \<Rightarrow>
                (case is_workspace_path resolved of
                   None \<Rightarrow> delegate w (real_openat E (os w) dirfd pathname flags mode)
                 | Some rel \<Rightarrow>
                     if flags AND (O_WRONLY OR O_RDWR) \<noteq> 0 then (Err EROFS, w)
                     else if rel = [] then
                       delegate (w\<lparr>in_hook := False\<rparr>)
                         (real_openat E (snd (sys_mkdir (os w) CACHE_DIR)) AT_FDCWD
                            (Some CACHE_DIR) (O_RDONLY OR O_DIRECTORY) 0)
                     else
                       (case ensure_cached_file E (w\<lparr>in_hook := True\<rparr>) rel of
                          (rc, w1) \<Rightarrow>
                            if rc < 0 then (Err ENOENT, w1\<lparr>in_hook := False\<rparr>)
                            else
                              (case cache_path_for rel of
                                 None \<Rightarrow> (Err ENOENT, w1\<lparr>in_hook := False\<rparr>)
                               | Some cache_path \<Rightarrow>
                                   delegate (w1\<lparr>in_hook := False\<rparr>)
                                     (real_openat E (os w1) AT_FDCWD (Some cache_path)
                                        (flags AND NOT (O_CREAT OR O_EXCL)) 0))))))"

text \<open>\<^verbatim>\<open>open\<close> (a reserved word here, hence the name), \<^verbatim>\<open>open64\<close>, \<^verbatim>\<open>openat64\<close>.\<close>

definition open' ::
  "env \<Rightarrow> world \<Rightarrow> string option \<Rightarrow> 32 word \<Rightarrow> 32 word \<Rightarrow> int result \<times> world" where
  "open' E w pathname flags va =
     openat E w AT_FDCWD pathname flags (va_mode flags va)"

definition open64 ::
  "env \<Rightarrow> world \<Rightarrow> string option \<Rightarrow> 32 word \<Rightarrow> 32 word \<Rightarrow> int result \<times> world" where
  "open64 E w pathname flags va =
     openat E w AT_FDCWD pathname flags (va_mode flags va)"

definition openat64 ::
  "env \<Rightarrow> world \<Rightarrow> int \<Rightarrow> string option \<Rightarrow> 32 word \<Rightarrow> 32 word \<Rightarrow> int result \<times> world" where
  "openat64 E w dirfd pathname flags va =
     openat E w dirfd pathname flags (va_mode flags va)"

text \<open>The status \<^verbatim>\<open>fstatat\<close> makes up for \<^verbatim>\<open>/workspace\<close> itself (\<^verbatim>\<open>0755\<close> is \<open>0x1ED\<close>).\<close>

definition root_stat :: struct_stat where
  "root_stat = \<lparr>st_mode = S_IFDIR OR 0x1ED, st_nlink = 2, st_size = 0, st_mtime = 0,
                 st_blksize = 0, st_blocks = 0\<rparr>"

definition fstatat ::
  "env \<Rightarrow> world \<Rightarrow> int \<Rightarrow> string option \<Rightarrow> 32 word \<Rightarrow> struct_stat result \<times> world" where
  "fstatat E w dirfd pathname flags =
     (if in_hook w \<or> pathname = None
      then (real_fstatat E (os w) dirfd pathname flags, w)
      else
        (case resolve_path E dirfd pathname of
           None \<Rightarrow> (real_fstatat E (os w) dirfd pathname flags, w)
         | Some resolved \<Rightarrow>
             (case is_workspace_path resolved of
                None \<Rightarrow> (real_fstatat E (os w) dirfd pathname flags, w)
              | Some rel \<Rightarrow>
                  (case (if rel = [] then (Some root_stat, w\<lparr>in_hook := True\<rparr>)
                         else ensure_cached_stat E (w\<lparr>in_hook := True\<rparr>) rel) of
                     (None, w1) \<Rightarrow> (Err ENOENT, w1\<lparr>in_hook := False\<rparr>)
                   | (Some st, w1) \<Rightarrow> (Ok st, w1\<lparr>in_hook := False\<rparr>)))))"

text \<open>\<^verbatim>\<open>__xstat\<close>, \<^verbatim>\<open>__lxstat\<close>, \<^verbatim>\<open>stat\<close>, \<^verbatim>\<open>lstat\<close>.\<close>

definition xstat ::
  "env \<Rightarrow> world \<Rightarrow> int \<Rightarrow> string option \<Rightarrow> struct_stat result \<times> world" where
  "xstat E w ver pathname = fstatat E w AT_FDCWD pathname 0"

definition lxstat ::
  "env \<Rightarrow> world \<Rightarrow> int \<Rightarrow> string option \<Rightarrow> struct_stat result \<times> world" where
  "lxstat E w ver pathname = fstatat E w AT_FDCWD pathname AT_SYMLINK_NOFOLLOW"

definition stat :: "env \<Rightarrow> world \<Rightarrow> string option \<Rightarrow> struct_stat result \<times> world" where
  "stat E w pathname = fstatat E w AT_FDCWD pathname 0"

definition lstat :: "env \<Rightarrow> world \<Rightarrow> string option \<Rightarrow> struct_stat result \<times> world" where
  "lstat E w pathname = fstatat E w AT_FDCWD pathname AT_SYMLINK_NOFOLLOW"

definition faccessat ::
  "env \<Rightarrow> world \<Rightarrow> int \<Rightarrow> string option \<Rightarrow> 32 word \<Rightarrow> 32 word \<Rightarrow> unit result \<times> world" where
  "faccessat E w dirfd pathname mode flags =
     (if in_hook w \<or> pathname = None
      then (real_faccessat E (os w) dirfd pathname mode flags, w)
      else
        (case resolve_path E dirfd pathname of
           None \<Rightarrow> (real_faccessat E (os w) dirfd pathname mode flags, w)
         | Some resolved \<Rightarrow>
             (case is_workspace_path resolved of
                None \<Rightarrow> (real_faccessat E (os w) dirfd pathname mode flags, w)
              | Some rel \<Rightarrow>
                  if mode AND W_OK \<noteq> 0 then (Err EROFS, w)
                  else
                    (case (if rel = [] then (0 :: int, w\<lparr>in_hook := True\<rparr>)
                           else
                             (case ensure_cached_stat E (w\<lparr>in_hook := True\<rparr>) rel of
                                (None, w1) \<Rightarrow> (- 1, w1)
                              | (Some st, w1) \<Rightarrow> (0, w1))) of
                       (rc, w1) \<Rightarrow>
                         if rc < 0 then (Err ENOENT, w1\<lparr>in_hook := False\<rparr>)
                         else (Ok (), w1\<lparr>in_hook := False\<rparr>)))))"

definition access :: "env \<Rightarrow> world \<Rightarrow> string option \<Rightarrow> 32 word \<Rightarrow> unit result \<times> world" where
  "access E w pathname mode = faccessat E w AT_FDCWD pathname mode 0"

text \<open>
  \<^verbatim>\<open>fopen\<close>, \<^verbatim>\<open>fopen64\<close>. A stream is a number, as a descriptor is; the mode is a
  string, never null.
\<close>

definition fopen :: "env \<Rightarrow> world \<Rightarrow> string option \<Rightarrow> string \<Rightarrow> int result \<times> world" where
  "fopen E w pathname mode =
     (if in_hook w \<or> pathname = None
      then delegate w (real_fopen E (os w) pathname mode)
      else
        (case resolve_path E AT_FDCWD pathname of
           None \<Rightarrow> delegate w (real_fopen E (os w) pathname mode)
         | Some resolved \<Rightarrow>
             (case is_workspace_path resolved of
                None \<Rightarrow> delegate w (real_fopen E (os w) pathname mode)
              | Some rel \<Rightarrow>
                  if CHR ''w'' \<in> set mode \<or> CHR ''a'' \<in> set mode \<or> CHR ''+'' \<in> set mode
                  then (Err EROFS, w)
                  else
                    (case openat E w AT_FDCWD pathname O_RDONLY 0 of
                       (Err e, w1) \<Rightarrow> (Err e, w1)
                     | (Ok fd, w1) \<Rightarrow> delegate w1 (real_fdopen E (os w1) fd ''r'')))))"

definition fopen64 :: "env \<Rightarrow> world \<Rightarrow> string option \<Rightarrow> string \<Rightarrow> int result \<times> world" where
  "fopen64 E w pathname mode = fopen E w pathname mode"

subsection \<open>A simulated host and C library\<close>

text \<open>
  Modelled from the spec: the host file server (\<^verbatim>\<open>fileserver_linux.go\<close>, which the
  protocol constants must match, is not in this repository). It serves a table of remote
  objects by the wire protocol of the spec: a request is an opcode, the path as a two-byte
  length and its bytes, and for \<^verbatim>\<open>READ\<close> an eight-byte offset and a four-byte length; a
  response is a status byte, then for \<^verbatim>\<open>STAT\<close> the mode, size, modification time and
  directory flag, for \<^verbatim>\<open>READ\<close> the count and the bytes. Every response is one frame,
  delivered as the length and then the payload.
\<close>

record remote =
  r_mode :: "32 word"
  r_mtime :: "64 word"
  r_is_dir :: bool
  r_data :: "byte list"

definition frame :: "byte list \<Rightarrow> wire" where
  "frame payload = \<lparr>sends = [], recvs = [be32 (of_nat (length payload)), payload]\<rparr>"

definition stat_response :: "32 word \<Rightarrow> 64 word \<Rightarrow> 64 word \<Rightarrow> bool \<Rightarrow> byte list" where
  "stat_response mode fsz mtime is_dir =
     STATUS_OK # be32 mode @ be64 fsz @ be64 mtime @ [if is_dir then 1 else 0]"

definition read_response :: "byte list \<Rightarrow> byte list" where
  "read_response bytes = STATUS_OK # be32 (of_nat (length bytes)) @ bytes"

definition sim_host :: "(string \<Rightarrow> remote option) \<Rightarrow> nat \<Rightarrow> byte list \<Rightarrow> wire" where
  "sim_host files i msg =
     (if length msg < 3 then \<lparr>sends = [], recvs = []\<rparr>
      else
        let n = unat (push_bit 8 (ucast (msg ! 1)) OR ucast (msg ! 2) :: 16 word);
            rel = map (\<lambda>b. char_of (unat b)) (take n (drop 3 msg));
            args = drop (3 + n) msg
        in case files rel of
             None \<Rightarrow> frame [STATUS_NOENT]
           | Some f \<Rightarrow>
               if msg ! 0 = OP_STAT
               then frame (stat_response (r_mode f) (of_nat (length (r_data f))) (r_mtime f)
                             (r_is_dir f))
               else if msg ! 0 = OP_READ \<and> length args \<ge> 12 then
                 frame (read_response
                          (take (unat (rd32 args 8)) (drop (unat (rd64 args 0)) (r_data f))))
               else frame [STATUS_NOENT])"

text \<open>
  A small C library over the modelled file system, for concrete runs. A relative path is
  read from the working directory \<^verbatim>\<open>/home/user\<close> (no directory descriptor is open);
  every failed lookup is reported as \<^verbatim>\<open>ENOENT\<close>; an open returns descriptor \<open>3\<close>,
  makes the file under \<^verbatim>\<open>O_CREAT\<close> and empties it under \<^verbatim>\<open>O_TRUNC\<close>, as Linux does
  whatever the access mode.
\<close>

definition file_stat :: "node \<Rightarrow> struct_stat" where
  "file_stat n =
     (case n of
        File b \<Rightarrow> \<lparr>st_mode = S_IFREG OR 0x1A4, st_nlink = 1, st_size = of_nat (length b),
                    st_mtime = 0, st_blksize = 4096, st_blocks = 0\<rparr>
      | Dir \<Rightarrow> \<lparr>st_mode = S_IFDIR OR 0x1ED, st_nlink = 2, st_size = 0,
                 st_mtime = 0, st_blksize = 4096, st_blocks = 0\<rparr>)"

definition sim_path :: "int \<Rightarrow> string option \<Rightarrow> string result" where
  "sim_path dirfd pathname =
     (case pathname of
        None \<Rightarrow> Err EFAULT
      | Some p \<Rightarrow>
          if take 1 p = ''/'' then Ok p
          else if dirfd = AT_FDCWD then Ok (''/home/user/'' @ p)
          else Err EBADF)"

definition sim_fstatat :: "os \<Rightarrow> int \<Rightarrow> string option \<Rightarrow> 32 word \<Rightarrow> struct_stat result" where
  "sim_fstatat k dirfd pathname flags =
     (case sim_path dirfd pathname of
        Err e \<Rightarrow> Err e
      | Ok p \<Rightarrow> (case lookup k p of None \<Rightarrow> Err ENOENT | Some n \<Rightarrow> Ok (file_stat n)))"

definition sim_openat ::
  "os \<Rightarrow> int \<Rightarrow> string option \<Rightarrow> 32 word \<Rightarrow> 32 word \<Rightarrow> int result \<times> os" where
  "sim_openat k dirfd pathname flags mode =
     (case sim_path dirfd pathname of
        Err e \<Rightarrow> (Err e, k)
      | Ok p \<Rightarrow>
          (case namei k p of
             None \<Rightarrow> (Err ENOENT, k)
           | Some q \<Rightarrow>
               (case node_at k q of
                  None \<Rightarrow>
                    if flags AND O_CREAT = 0 \<or> last p = CHR ''/'' then (Err ENOENT, k)
                    else (Ok 3, k\<lparr>fs := (fs k)(q \<mapsto> File [])\<rparr>)
                | Some Dir \<Rightarrow>
                    if flags AND (O_WRONLY OR O_RDWR OR O_CREAT) \<noteq> 0 then (Err EISDIR, k)
                    else (Ok 3, k)
                | Some (File b) \<Rightarrow>
                    if last p = CHR ''/'' \<or> flags AND O_DIRECTORY \<noteq> 0 then (Err ENOTDIR, k)
                    else if flags AND O_CREAT \<noteq> 0 \<and> flags AND O_EXCL \<noteq> 0 then (Err EEXIST, k)
                    else if flags AND O_TRUNC \<noteq> 0 then (Ok 3, k\<lparr>fs := (fs k)(q \<mapsto> File [])\<rparr>)
                    else (Ok 3, k))))"

definition sim_faccessat ::
  "os \<Rightarrow> int \<Rightarrow> string option \<Rightarrow> 32 word \<Rightarrow> 32 word \<Rightarrow> unit result" where
  "sim_faccessat k dirfd pathname mode flags =
     (case sim_path dirfd pathname of
        Err e \<Rightarrow> Err e
      | Ok p \<Rightarrow> (case lookup k p of None \<Rightarrow> Err ENOENT | Some n \<Rightarrow> Ok ()))"

definition sim_fopen :: "os \<Rightarrow> string option \<Rightarrow> string \<Rightarrow> int result \<times> os" where
  "sim_fopen k pathname mode =
     sim_openat k AT_FDCWD pathname
       ((if CHR ''+'' \<in> set mode then O_RDWR
         else if take 1 mode = ''r'' then O_RDONLY else O_WRONLY)
        OR (if take 1 mode = ''w'' then O_CREAT OR O_TRUNC
            else if take 1 mode = ''a'' then O_CREAT OR O_APPEND else 0))
       0x1B6"

definition sim_fdopen :: "os \<Rightarrow> int \<Rightarrow> string \<Rightarrow> int result \<times> os" where
  "sim_fdopen k fd mode = (Ok fd, k)"

definition sim_env :: "(nat \<Rightarrow> byte list \<Rightarrow> wire) \<Rightarrow> env" where
  "sim_env h =
     \<lparr>real_openat = sim_openat, real_fstatat = sim_fstatat, real_faccessat = sim_faccessat,
      real_fopen = sim_fopen, real_fdopen = sim_fdopen, cwd = Some ''/home/user'',
      fd_link = (\<lambda>fd. None), socket_fd = (\<lambda>i. 5 + int i), connect_ok = (\<lambda>i. True),
      host = h\<rparr>"

text \<open>
  The first state: a file system with \<^verbatim>\<open>/tmp\<close> and nothing else, no connection yet.
\<close>

definition world0 :: world where
  "world0 =
     \<lparr>os = \<lparr>fs = [[''tmp''] \<mapsto> Dir], plan = [], tmp_suffix = ''a1B2c3''\<rparr>,
      in_hook = False, vsock_fd = - 1, nsock = 0, calls = []\<rparr>"

text \<open>
  The host of the spec's scenarios: the files \<^verbatim>\<open>foo.txt\<close> and \<^verbatim>\<open>a/b.txt\<close> (mode
  \<^verbatim>\<open>0644\<close>, modification time 1000) with the given content, and a directory \<^verbatim>\<open>docs\<close>.
\<close>

definition host_files :: "byte list \<Rightarrow> string \<Rightarrow> remote option" where
  "host_files content p =
     (if p = ''foo.txt'' \<or> p = ''a/b.txt''
      then Some \<lparr>r_mode = 0x1A4, r_mtime = 1000, r_is_dir = False, r_data = content\<rparr>
      else if p = ''docs''
      then Some \<lparr>r_mode = 0x1ED, r_mtime = 1000, r_is_dir = True, r_data = []\<rparr>
      else None)"

subsection \<open>Notions the properties use\<close>

text \<open>
  A path is outside the namespace when it does not resolve (a null path, a directory
  descriptor that cannot be read back, a result of \<^verbatim>\<open>PATH_MAX\<close> bytes or more) or
  resolves to a path that \<^verbatim>\<open>is_workspace_path\<close> rejects.
\<close>

definition outside :: "env \<Rightarrow> int \<Rightarrow> string option \<Rightarrow> bool" where
  "outside E dirfd pathname =
     (case resolve_path E dirfd pathname of
        None \<Rightarrow> True
      | Some resolved \<Rightarrow> is_workspace_path resolved = None)"

text \<open>
  A relative path in plain form: names that are not empty, \<^verbatim>\<open>.\<close> or \<^verbatim>\<open>..\<close>, joined by
  single slashes. The place of its cache entry is then the names of the cache root
  followed by its own.
\<close>

fun join :: "string list \<Rightarrow> string" where
  "join [] = []"
| "join [c] = c"
| "join (c # d # cs) = c @ CHR ''/'' # join (d # cs)"

definition plain :: "string \<Rightarrow> bool" where
  "plain c = (c \<noteq> [] \<and> CHR ''/'' \<notin> set c \<and> c \<noteq> ''.'' \<and> c \<noteq> ''..'')"

definition clean :: "string list \<Rightarrow> bool" where
  "clean cs = (cs \<noteq> [] \<and> list_all plain cs)"

definition cache_root :: "string list" where
  "cache_root = [''tmp'', ''.wscache'']"

text \<open>The simulated environment with an empty \<^verbatim>\<open>foo.txt\<close> on the host.\<close>

definition E0 :: env where
  "E0 = sim_env (sim_host (host_files []))"

text \<open>
  Two C libraries whose \<^verbatim>\<open>openat\<close> returns the flags, or the mode, it was called with;
  a state in which \<^verbatim>\<open>foo.txt\<close> is in the cache already, with three bytes; and the
  simulated environment whose host has these three bytes as \<^verbatim>\<open>foo.txt\<close>.
\<close>

definition spy_env :: env where
  "spy_env = E0\<lparr>real_openat := (\<lambda>k dirfd pathname flags mode. (Ok (uint flags), k))\<rparr>"

definition mode_spy_env :: env where
  "mode_spy_env = E0\<lparr>real_openat := (\<lambda>k dirfd pathname flags mode. (Ok (uint mode), k))\<rparr>"

definition cached_world :: world where
  "cached_world =
     world0\<lparr>os := (os world0)\<lparr>fs := [[''tmp''] \<mapsto> Dir, [''tmp'', ''.wscache''] \<mapsto> Dir,
                                     [''tmp'', ''.wscache'', ''foo.txt''] \<mapsto> File [10, 20, 30]]\<rparr>\<rparr>"

definition tiny_env :: env where
  "tiny_env = sim_env (sim_host (host_files [10, 20, 30]))"

text \<open>
  A response frame is bad when its length cannot be received, when the length it declares
  is zero or above 16 MiB, or when fewer bytes than declared arrive.
\<close>

definition bad_frame :: "byte list list \<Rightarrow> bool" where
  "bad_frame segs =
     (case recv_all segs 4 of
        None \<Rightarrow> True
      | Some (len_buf, rest) \<Rightarrow>
          rd32 len_buf 0 = 0 \<or> rd32 len_buf 0 > 16 * 1024 * 1024
          \<or> recv_all rest (unat (rd32 len_buf 0)) = None)"

text \<open>
  The first state after a connection to the simulated host, and three hosts that
  misbehave: one declares a frame of 17 MiB, one closes after three of 22 bytes, one
  answers every request with an \<^verbatim>\<open>OK\<close> status and two more bytes.
\<close>

definition connected0 :: world where
  "connected0 = world0\<lparr>nsock := 1, vsock_fd := 5\<rparr>"

definition oversize_env :: env where
  "oversize_env = sim_env (\<lambda>i msg. \<lparr>sends = [], recvs = [[1, 16, 0, 0]]\<rparr>)"

definition midframe_env :: env where
  "midframe_env = sim_env (\<lambda>i msg. \<lparr>sends = [], recvs = [[0, 0, 0, 22], [0, 0, 0]]\<rparr>)"

definition short_env :: env where
  "short_env = sim_env (\<lambda>i msg. frame [0, 0, 0])"

text \<open>
  \<open>dirs_added S k k'\<close>: from \<open>k\<close> to \<open>k'\<close> every place is as it was, or was empty and
  now holds a directory, and then satisfies \<open>S\<close>.
\<close>

definition dirs_added :: "(string list \<Rightarrow> bool) \<Rightarrow> os \<Rightarrow> os \<Rightarrow> bool" where
  "dirs_added S k k' =
     (\<forall>q. fs k' q = fs k q \<or> (fs k q = None \<and> fs k' q = Some Dir \<and> S q))"

text \<open>
  The C library's status query agrees with the modelled file system: on an absolute path
  it succeeds exactly when the path names an object.
\<close>

definition stat_sees_fs :: "env \<Rightarrow> bool" where
  "stat_sees_fs E =
     (\<forall>k p. take 1 p = ''/'' \<longrightarrow>
        is_ok (real_fstatat E k AT_FDCWD (Some p) 0) = (lookup k p \<noteq> None))"

text \<open>The host, asked now, answers the status request with a directory.\<close>

definition remote_is_dir :: "env \<Rightarrow> world \<Rightarrow> string \<Rightarrow> bool" where
  "remote_is_dir E w rel =
     (case fst (remote_stat E w rel) of None \<Rightarrow> False | Some st \<Rightarrow> S_ISDIR (st_mode st))"

text \<open>
  A host that answers the first request as the simulated host with a three-byte
  \<^verbatim>\<open>foo.txt\<close> does, then closes the connection during every request. A host that
  reports a file of five bytes, serves two of them, and answers every later request with
  an \<^verbatim>\<open>OK\<close> status and two more bytes, less than the header of a \<^verbatim>\<open>READ\<close> response.
\<close>

definition flaky_host :: "nat \<Rightarrow> byte list \<Rightarrow> wire" where
  "flaky_host i msg =
     (if i = 0 then sim_host (host_files [10, 20, 30]) i msg else \<lparr>sends = [], recvs = []\<rparr>)"

definition flaky_env :: env where
  "flaky_env = sim_env flaky_host"

definition cut_host :: "nat \<Rightarrow> byte list \<Rightarrow> wire" where
  "cut_host i msg =
     (if i = 0 then frame (stat_response 0x1A4 5 1000 False)
      else if i = 1 then frame (read_response [10, 20])
      else frame [0, 0, 0])"

definition cut_env :: env where
  "cut_env = sim_env cut_host"



text \<open>
  Three states whose file system fails: the second \<^verbatim>\<open>write\<close> (after a first one of two
  bytes), the \<^verbatim>\<open>rename\<close>, and the second \<^verbatim>\<open>mkdir\<close>.
\<close>

definition write_fault_world :: world where
  "write_fault_world = world0\<lparr>os := (os world0)\<lparr>plan := [1, 1, 2, 0]\<rparr>\<rparr>"

definition rename_fault_world :: world where
  "rename_fault_world = world0\<lparr>os := (os world0)\<lparr>plan := [1, 1, 5, 0]\<rparr>\<rparr>"

definition mkdir_fault_world :: world where
  "mkdir_fault_world = world0\<lparr>os := (os world0)\<lparr>plan := [1, 0]\<rparr>\<rparr>"
section \<open>Properties\<close>

subsection \<open>Auxiliary facts\<close>


lemma and_or_nonzero:
  fixes x :: "32 word"
  shows "(x AND (a OR b) \<noteq> 0) = (x AND a \<noteq> 0 \<or> x AND b \<noteq> 0)"
  by (auto simp: bit.conj_disj_distrib or_eq_0_iff)

lemma send_request_world:
  "send_request E w msg = (r, w') \<Longrightarrow> w' = w \<or> w' = w\<lparr>calls := calls w @ [msg]\<rparr>"
  by (auto simp: send_request_def Let_def split: prod.splits bool.splits option.splits if_splits)

lemma send_request_up:
  "0 \<le> vsock_fd w \<Longrightarrow> send_request E w msg = (r, w') \<Longrightarrow> w' = w\<lparr>calls := calls w @ [msg]\<rparr>"
  by (auto simp: send_request_def Let_def split: prod.splits bool.splits option.splits if_splits)

lemma vsock_connect_frame:
  "vsock_connect E w = (rc, w') \<Longrightarrow>
     os w' = os w \<and> calls w' = calls w \<and> in_hook w' = in_hook w"
  by (auto simp: vsock_connect_def Let_def split: if_splits)

lemma vsock_disconnect_frame:
  "os (vsock_disconnect w) = os w \<and> calls (vsock_disconnect w) = calls w
   \<and> in_hook (vsock_disconnect w) = in_hook w \<and> nsock (vsock_disconnect w) = nsock w"
  by (simp add: vsock_disconnect_def)

lemma remote_stat_frame:
  assumes "remote_stat E w rel = (r, w')"
  shows "os w' = os w \<and> in_hook w' = in_hook w
       \<and> (calls w' = calls w \<or> calls w' = calls w @ [stat_request rel])"
proof -
  obtain rc wc where c: "vsock_connect E w = (rc, wc)" by (cases "vsock_connect E w")
  obtain resp w2 where s: "send_request E wc (stat_request rel) = (resp, w2)"
    by (cases "send_request E wc (stat_request rel)")
  from send_request_world [OF s]
  have "os w2 = os wc \<and> in_hook w2 = in_hook wc
       \<and> (calls w2 = calls wc \<or> calls w2 = calls wc @ [stat_request rel])" by auto
  with assms c s vsock_connect_frame [OF c] show ?thesis
    by (auto simp: remote_stat_def vsock_disconnect_frame split: if_splits option.splits)
qed

lemma ensure_cached_stat_frame:
  assumes "ensure_cached_stat E w rel = (r, w')"
  shows "os w' = os w \<and> in_hook w' = in_hook w
       \<and> (calls w' = calls w \<or> calls w' = calls w @ [stat_request rel])"
  using assms remote_stat_frame [of E w rel r w']
  by (auto simp: ensure_cached_stat_def split: option.splits result.splits)

lemma resolve_foo:
  "resolve_path E dirfd (Some ''/workspace/foo.txt'') = Some ''/workspace/foo.txt''"
  by (simp add: resolve_path_def PATH_MAX_def)

lemma workspace_foo: "is_workspace_path ''/workspace/foo.txt'' = Some ''foo.txt''"
  by (simp add: is_workspace_path_def WORKSPACE_PREFIX_LEN_def WORKSPACE_PREFIX_def)

lemma resolve_root: "resolve_path E dirfd (Some ''/workspace'') = Some ''/workspace''"
  by (simp add: resolve_path_def PATH_MAX_def)

lemma workspace_root: "is_workspace_path ''/workspace'' = Some []"
  by (simp add: is_workspace_path_def WORKSPACE_PREFIX_LEN_def WORKSPACE_PREFIX_def
      WORKSPACE_DIR_def)

lemma world0_fields:
  "in_hook world0 = False" "calls world0 = []" "vsock_fd world0 = - 1" "nsock world0 = 0"
  "plan (os world0) = []" "fs (os world0) = [[''tmp''] \<mapsto> Dir]"
  "tmp_suffix (os world0) = ''a1B2c3''"
  by (simp_all add: world0_def)

lemma cache_path_foo: "cache_path_for ''foo.txt'' = Some ''/tmp/.wscache/foo.txt''"
  by (simp add: cache_path_for_def CACHE_DIR_def PATH_MAX_def)

lemma ensure_ok_cache_path:
  "ensure_cached_file E w rel = (rc, w1) \<Longrightarrow> \<not> rc < 0 \<Longrightarrow>
     cache_path_for rel = Some (CACHE_DIR @ rel)"
  by (auto simp: ensure_cached_file_def cache_path_for_def Let_def split: if_splits)

lemma spy_open: "real_openat spy_env k dirfd pathname flags mode = (Ok (uint flags), k)"
  by (simp add: spy_env_def)

lemma cached_world_fields:
  "in_hook cached_world = False" "calls cached_world = []"
  "cached_world\<lparr>in_hook := True\<rparr>\<lparr>in_hook := False\<rparr> = cached_world"
  by (simp_all add: cached_world_def world0_def)

lemma m255: "(255 :: 'a::len word) = mask 8"
  by (simp add: mask_eq_decr_exp)

lemma byte_lane:
  fixes v :: "'a::len word"
  assumes "n < LENGTH('a)"
  shows "bit (push_bit k (ucast (ucast (drop_bit k v AND mask 8) :: byte)) :: 'a word) n
         = (k \<le> n \<and> n < k + 8 \<and> bit v n)"
  using assms by (auto simp: bit_simps)

lemma byte_lane0:
  fixes v :: "'a::len word"
  assumes "n < LENGTH('a)"
  shows "bit (ucast (ucast (v AND mask 8) :: byte) :: 'a word) n = (n < 8 \<and> bit v n)"
  using assms by (auto simp: bit_simps)

lemma rd32_be32: "rd32 (pre @ be32 v @ post) (length pre) = v"
proof -
  have "rd32 (pre @ be32 v @ post) (length pre) =
    push_bit 24 (ucast (ucast (drop_bit 24 v AND mask 8) :: byte)) OR
    push_bit 16 (ucast (ucast (drop_bit 16 v AND mask 8) :: byte)) OR
    push_bit 8 (ucast (ucast (drop_bit 8 v AND mask 8) :: byte)) OR
    ucast (ucast (v AND mask 8) :: byte)"
    by (simp add: rd32_def be32_def nth_append m255)
  also have "\<dots> = v"
    by (rule bit_word_eqI) (auto simp: bit_or_iff byte_lane byte_lane0)
  finally show ?thesis .
qed



lemma length_be [simp]:
  "length (be16 a) = 2" "length (be32 b) = 4" "length (be64 c) = 8"
  by (simp_all add: be16_def be32_def be64_def)

lemma rd32_be32_only: "rd32 (be32 v) 0 = v"
  using rd32_be32 [of "[]" v "[]"] by simp

lemma recv_all_0 [simp]: "recv_all segs 0 = Some ([], segs)"
  by (cases segs) simp_all

lemma recv_all_length: "recv_all segs n = Some (bs, rest) \<Longrightarrow> length bs = n"
proof (induction segs arbitrary: n bs rest)
  case Nil
  then show ?case by (simp split: if_splits)
next
  case (Cons s ss)
  show ?case
  proof (cases "n = 0 \<or> \<not> length s \<le> n")
    case True
    with Cons.prems show ?thesis by (auto split: if_splits)
  next
    case False
    with Cons.prems obtain bs' where
      b: "recv_all ss (n - length s) = Some (bs', rest)" "bs = s @ bs'"
      by (auto split: if_splits option.splits prod.splits)
    from Cons.IH [OF b(1)] b(2) False show ?thesis by simp
  qed
qed

lemma recv_all_exact: "s \<noteq> [] \<Longrightarrow> recv_all (s # ss) (length s) = Some (s, ss)"
  by simp

lemma unat_len32: "n \<le> 16777216 \<Longrightarrow> unat (of_nat n :: 32 word) = n"
  by (simp add: unat_of_nat)

lemma send_request_frame:
  assumes "host E (length (calls w)) msg = frame payload"
    and "payload \<noteq> []" and "length payload \<le> 16777216" and "0 \<le> vsock_fd w"
  shows "send_request E w msg = (Some payload, w\<lparr>calls := calls w @ [msg]\<rparr>)"
proof -
  let ?n = "of_nat (length payload) :: 32 word"
  have u: "unat ?n = length payload" using assms(3) by (rule unat_len32)
  have h: "recv_all (recvs (frame payload)) 4 = Some (be32 ?n, [payload])"
    using recv_all_exact [of "be32 ?n" "[payload]"] by (simp add: frame_def be32_def)
  have z: "?n \<noteq> 0" using u assms(2) by (metis length_0_conv unat_0)
  have le: "\<not> ?n > 16 * 1024 * 1024"
    using u assms(3) by (simp add: word_less_nat_alt)
  have p: "recv_all [payload] (unat ?n) = Some (payload, [])"
    using recv_all_exact [OF assms(2), of "[]"] u by simp
  have s: "send_all (sends (frame payload)) 4 = (True, [])" "send_all [] (length msg) = (True, [])"
    by (simp_all add: frame_def)
  show ?thesis
    using z le assms(2,4)
    by (simp add: send_request_def assms(1) Let_def s h rd32_be32_only u)
qed

lemma send_request_bad_frame:
  assumes "bad_frame (recvs (host E (length (calls w)) msg))" and "0 \<le> vsock_fd w"
  shows "send_request E w msg = (None, w\<lparr>calls := calls w @ [msg]\<rparr>)"
proof -
  obtain a b where 1: "send_all (sends (host E (length (calls w)) msg)) 4 = (a, b)"
    by (cases "send_all (sends (host E (length (calls w)) msg)) 4")
  obtain c d where 2: "send_all b (length msg) = (c, d)"
    by (cases "send_all b (length msg)")
  show ?thesis
    using assms 1 2
    by (cases a; cases c) (auto simp: send_request_def bad_frame_def Let_def split: option.splits)
qed

lemma vsock_connect_ok:
  "vsock_connect E w = (0, wc) \<Longrightarrow>
     0 \<le> vsock_fd wc \<and> calls wc = calls w \<and> os wc = os w \<and> in_hook wc = in_hook w"
  by (auto simp: vsock_connect_def Let_def split: if_splits)

lemma vsock_connect_fresh:
  "vsock_fd d < 0 \<Longrightarrow> nsock (snd (vsock_connect E d)) = Suc (nsock d)"
  by (simp add: vsock_connect_def Let_def)

lemma send_request_nsock:
  "nsock (snd (send_request E w msg)) = nsock w"
  using send_request_world [of E w msg "fst (send_request E w msg)" "snd (send_request E w msg)"]
  by auto

lemma remote_stat_nsock:
  "nsock (snd (remote_stat E d rel)) = nsock (snd (vsock_connect E d))"
proof -
  obtain rc wc where c: "vsock_connect E d = (rc, wc)" by (cases "vsock_connect E d")
  obtain resp w2 where s: "send_request E wc (stat_request rel) = (resp, w2)"
    by (cases "send_request E wc (stat_request rel)")
  show ?thesis
    using c s send_request_nsock [of E wc "stat_request rel"]
    by (simp add: remote_stat_def vsock_disconnect_def split: option.splits)
qed

lemma remote_read_chunk_nsock:
  "nsock (snd (remote_read_chunk E d rel off len)) = nsock (snd (vsock_connect E d))"
proof -
  obtain rc wc where c: "vsock_connect E d = (rc, wc)" by (cases "vsock_connect E d")
  obtain resp w2 where s: "send_request E wc (read_request rel off len) = (resp, w2)"
    by (cases "send_request E wc (read_request rel off len)")
  show ?thesis
    using c s send_request_nsock [of E wc "read_request rel off len"]
    by (simp add: remote_read_chunk_def vsock_disconnect_def Let_def split: option.splits)
qed

lemma sim_env_fields:
  "host (sim_env h) = h" "socket_fd (sim_env h) i = 5 + int i" "connect_ok (sim_env h) i"
  "real_fstatat (sim_env h) = sim_fstatat" "real_openat (sim_env h) = sim_openat"
  "cwd (sim_env h) = Some ''/home/user''"
  by (simp_all add: sim_env_def)

lemma connect_world0: "vsock_connect (sim_env h) world0 = (0, connected0)"
  by (simp add: vsock_connect_def sim_env_fields world0_def connected0_def)

lemma connected0_fields:
  "in_hook connected0 = False" "calls connected0 = []" "vsock_fd connected0 = 5"
  "nsock connected0 = 1" "os connected0 = os world0"
  by (simp_all add: connected0_def world0_def)

lemma short_request:
  "send_request short_env connected0 msg = (Some [0, 0, 0], connected0\<lparr>calls := [msg]\<rparr>)"
  using send_request_frame [of short_env connected0 msg "[0, 0, 0]"]
  by (simp add: short_env_def sim_env_fields connected0_fields)

lemma short_connect: "vsock_connect short_env world0 = (0, connected0)"
  by (simp add: short_env_def connect_world0)

lemma next_choice_fs:
  "fs (snd (next_choice k)) = fs k" "tmp_suffix (snd (next_choice k)) = tmp_suffix k"
  by (simp_all add: next_choice_def split: list.splits)

lemma next_choice_nil: "plan k = [] \<Longrightarrow> next_choice k = (None, k)"
  by (simp add: next_choice_def)

lemma node_at_fs: "fs k' = fs k \<Longrightarrow> node_at k' q = node_at k q"
  by (simp add: node_at_def)

lemma walk_same_dirs:
  assumes "\<And>q. (node_at k' q = Some Dir) = (node_at k q = Some Dir)"
  shows "walk k' cur cs = walk k cur cs"
  by (induction cs arbitrary: cur) (simp_all add: assms)

lemma namei_same_dirs:
  assumes "\<And>q. (node_at k' q = Some Dir) = (node_at k q = Some Dir)"
  shows "namei k' p = namei k p"
  using walk_same_dirs [of k' k, OF assms] by (simp add: namei_def)

lemma fs_cong:
  assumes "fs k' = fs k"
  shows "namei k' p = namei k p" "file_at k' p = file_at k p" "lookup k' p = lookup k p"
proof -
  have n: "node_at k' q = node_at k q" for q using assms by (rule node_at_fs)
  show a: "namei k' p = namei k p" by (rule namei_same_dirs) (simp add: n)
  show "file_at k' p = file_at k p" "lookup k' p = lookup k p"
    unfolding file_at_def lookup_def a n by (rule refl)+
qed


lemma comps_nosep:
  "CHR ''/'' \<notin> set s \<Longrightarrow> comps acc s = (if acc @ s = [] then [] else [acc @ s])"
  by (induction s arbitrary: acc) auto

lemma comps_sep:
  "CHR ''/'' \<notin> set s \<Longrightarrow>
     comps acc (s @ CHR ''/'' # rest)
       = (if acc @ s = [] then comps [] rest else (acc @ s) # comps [] rest)"
  by (induction s arbitrary: acc) auto

lemma components_join: "list_all plain cs \<Longrightarrow> components (join cs) = cs"
proof (induction cs rule: join.induct)
  case 1
  show ?case by (simp add: components_def)
next
  case (2 c)
  then show ?case by (simp add: components_def comps_nosep plain_def)
next
  case (3 c d cs)
  then have "CHR ''/'' \<notin> set c" "c \<noteq> []" by (simp_all add: plain_def)
  with 3 show ?case
    using comps_sep [of c "[]" "join (d # cs)"] by (simp add: components_def)
qed

lemma components_cache:
  "components (CACHE_DIR @ x) = cache_root @ components x"
  "components ''/tmp/.wscache'' = cache_root"
  by (simp_all add: components_def CACHE_DIR_def cache_root_def)

lemma join_snoc: "cs \<noteq> [] \<Longrightarrow> join (cs @ [c]) = join cs @ CHR ''/'' # c"
  by (induction cs rule: join.induct) simp_all




lemma walk_plain_result:
  "list_all plain cs \<Longrightarrow> walk k cur cs = Some q \<Longrightarrow> q = cur @ cs"
proof (induction cs arbitrary: cur)
  case Nil
  then show ?case by simp
next
  case (Cons c cs)
  from Cons.prems(1) have "plain c" and p3: "list_all plain cs" by simp_all
  then have p: "c \<noteq> ''.''" "c \<noteq> ''..''" "list_all plain cs"
    by (simp_all add: plain_def)
  from Cons.prems(2) p have "walk k (cur @ [c]) cs = Some q" by (simp split: if_splits)
  from Cons.IH [OF p(3) this] show ?case by simp
qed

lemma dirs_added_refl: "dirs_added S k k"
  by (simp add: dirs_added_def)

lemma dirs_added_same: "fs k' = fs k \<Longrightarrow> dirs_added S k k'"
  by (simp add: dirs_added_def)

lemma dirs_added_trans:
  assumes "dirs_added S a b" and "dirs_added S b c"
  shows "dirs_added S a c"
  unfolding dirs_added_def
proof
  fix q
  from assms have "fs b q = fs a q \<or> (fs a q = None \<and> fs b q = Some Dir \<and> S q)"
    and "fs c q = fs b q \<or> (fs b q = None \<and> fs c q = Some Dir \<and> S q)"
    by (simp_all add: dirs_added_def)
  then show "fs c q = fs a q \<or> (fs a q = None \<and> fs c q = Some Dir \<and> S q)"
    by auto
qed

lemma dirs_added_mono: "dirs_added S a b \<Longrightarrow> (\<And>q. S q \<Longrightarrow> T q) \<Longrightarrow> dirs_added T a b"
  unfolding dirs_added_def by blast

lemma sys_mkdir_cases:
  "sys_mkdir k p = (- 1, snd (next_choice k))
   \<or> (\<exists>q. namei k p = Some q \<and> q \<noteq> [] \<and> fs k q = None
          \<and> sys_mkdir k p = (0, (snd (next_choice k))\<lparr>fs := (fs k)(q \<mapsto> Dir)\<rparr>))"
proof -
  obtain c k1 where c: "next_choice k = (c, k1)" by (cases "next_choice k")
  with next_choice_fs(1) [of k] have f: "fs k1 = fs k" by simp
  note g = fs_cong(1) [OF f] node_at_fs [OF f]
  show ?thesis
    by (auto simp: sys_mkdir_def c g f node_at_def split: option.splits if_splits)
qed

lemma sys_mkdir_added:
  assumes "\<And>q. namei k p = Some q \<Longrightarrow> S q"
  shows "dirs_added S k (snd (sys_mkdir k p))"
proof -
  from sys_mkdir_cases [of k p] show ?thesis
  proof
    assume "sys_mkdir k p = (- 1, snd (next_choice k))"
    then show ?thesis using next_choice_fs(1) [of k] by (simp add: dirs_added_same)
  next
    assume "\<exists>q. namei k p = Some q \<and> q \<noteq> [] \<and> fs k q = None
          \<and> sys_mkdir k p = (0, (snd (next_choice k))\<lparr>fs := (fs k)(q \<mapsto> Dir)\<rparr>)"
    then obtain q where q: "namei k p = Some q" "fs k q = None"
      "sys_mkdir k p = (0, (snd (next_choice k))\<lparr>fs := (fs k)(q \<mapsto> Dir)\<rparr>)" by blast
    from assms [OF q(1)] q(2,3) show ?thesis by (simp add: dirs_added_def)
  qed
qed

lemma sys_mkdir_suffix: "tmp_suffix (snd (sys_mkdir k p)) = tmp_suffix k"
  using sys_mkdir_cases [of k p] next_choice_fs(2) [of k] by auto

lemma sys_mkdir_nil:
  assumes "plan k = []"
  shows "sys_mkdir k p = (- 1, k)
   \<or> (\<exists>q. namei k p = Some q \<and> q \<noteq> [] \<and> fs k q = None
          \<and> sys_mkdir k p = (0, k\<lparr>fs := (fs k)(q \<mapsto> Dir)\<rparr>))"
  using sys_mkdir_cases [of k p] by (simp add: next_choice_nil [OF assms])

lemma sys_mkdir_plan_nil: "plan k = [] \<Longrightarrow> plan (snd (sys_mkdir k p)) = []"
  using sys_mkdir_nil [of k p] by auto


lemma foldl_mkdir_added:
  assumes "\<And>k1 i q. i \<in> set js \<Longrightarrow> namei k1 (take i path) = Some q \<Longrightarrow> S q"
  shows "dirs_added S k
           (foldl (\<lambda>k1 i. if path ! i = CHR ''/'' then snd (sys_mkdir k1 (take i path)) else k1)
              k js)"
  using assms
proof (induction js arbitrary: k)
  case Nil
  show ?case by (simp add: dirs_added_refl)
next
  case (Cons j js)
  let ?f = "\<lambda>k1 i. if path ! i = CHR ''/'' then snd (sys_mkdir k1 (take i path)) else k1"
  have a: "dirs_added S k (?f k j)"
    using Cons.prems [of j k] by (simp add: sys_mkdir_added dirs_added_refl)
  have b: "dirs_added S (?f k j) (foldl ?f (?f k j) js)"
  proof (rule Cons.IH)
    fix k1 i q assume "i \<in> set js" "namei k1 (take i path) = Some q"
    then show "S q" using Cons.prems [of i k1 q] by simp
  qed
  from dirs_added_trans [OF a b] show ?case by simp
qed

lemma mkdirs_added: "dirs_added (\<lambda>q. True) k (mkdirs k path)"
proof -
  have "dirs_added (\<lambda>q. True) k (snd (sys_mkdir k ''/tmp/.wscache''))"
    by (rule sys_mkdir_added) simp
  moreover have "dirs_added (\<lambda>q. True) (snd (sys_mkdir k ''/tmp/.wscache'')) (mkdirs k path)"
    unfolding mkdirs_def by (rule foldl_mkdir_added) simp
  ultimately show ?thesis by (rule dirs_added_trans)
qed

lemma foldl_noop: "(\<And>a i. i \<in> set js \<Longrightarrow> f a i = a) \<Longrightarrow> foldl f k js = k"
  by (induction js arbitrary: k) simp_all

lemma mkdirs_single:
  assumes "CHR ''/'' \<notin> set c"
  shows "mkdirs k (CACHE_DIR @ c) = snd (sys_mkdir k ''/tmp/.wscache'')"
proof -
  define P where "P = CACHE_DIR @ c"
  have "P ! i \<noteq> CHR ''/''" if "i \<in> set [CACHE_DIR_LEN ..< length (take (PATH_MAX - 1) P)]" for i
  proof -
    have l: "length CACHE_DIR = 14" by (simp add: CACHE_DIR_def)
    from that have i: "14 \<le> i" "i < length P" by (simp_all add: CACHE_DIR_LEN_def)
    then have "P ! i = c ! (i - 14)" unfolding P_def by (simp add: nth_append l)
    moreover from i have "i - 14 < length c" unfolding P_def by (simp add: l)
    ultimately show ?thesis using assms by (metis nth_mem)
  qed
  then show ?thesis
    unfolding mkdirs_def P_def [symmetric] by (intro foldl_noop) simp
qed

lemma mkdirs_snoc:
  assumes "CHR ''/'' \<notin> set c" and "CACHE_DIR_LEN \<le> length path"
    and "length (path @ CHR ''/'' # c) < PATH_MAX"
  shows "mkdirs k (path @ CHR ''/'' # c) = snd (sys_mkdir (mkdirs k path) path)"
proof -
  define P where "P = path @ CHR ''/'' # c"
  define n where "n = length path"
  let ?f = "\<lambda>Q k1 i. if Q ! i = CHR ''/'' then snd (sys_mkdir k1 (take i Q)) else k1"
  define k0 where "k0 = snd (sys_mkdir k ''/tmp/.wscache'')"
  have lP: "length P = Suc (n + length c)" by (simp add: P_def n_def)
  have tP: "take (PATH_MAX - 1) P = P" using assms(3) by (simp add: P_def)
  have tp: "take (PATH_MAX - 1) path = path" using assms(3) by simp
  have up: "[CACHE_DIR_LEN ..< length P]
              = [CACHE_DIR_LEN ..< n] @ n # [Suc n ..< Suc (n + length c)]"
    using assms(2) unfolding lP n_def
    by (metis le_add1 le_imp_less_Suc upt_add_eq_append upt_conv_Cons less_add_Suc1
        add_Suc_right)
  have a: "foldl (?f P) k0 [CACHE_DIR_LEN ..< n] = foldl (?f path) k0 [CACHE_DIR_LEN ..< n]"
    by (rule foldl_cong) (simp_all add: P_def n_def nth_append)
  have b: "?f P k1 n = snd (sys_mkdir k1 path)" for k1
    by (simp add: P_def n_def)
  have c: "foldl (?f P) k1 [Suc n ..< Suc (n + length c)] = k1" for k1
  proof (rule foldl_noop)
    fix a i assume "i \<in> set [Suc n ..< Suc (n + length c)]"
    then have i: "Suc n \<le> i" "i - Suc n < length c" by auto
    then have "P ! i = c ! (i - Suc n)"
      by (simp add: P_def n_def nth_append nth_Cons')
    with i(2) assms(1) have "P ! i \<noteq> CHR ''/''" by (metis nth_mem)
    then show "?f P a i = a" by simp
  qed
  have "mkdirs k P = foldl (?f P) k0 [CACHE_DIR_LEN ..< length P]"
    unfolding mkdirs_def tP k0_def ..
  also have "\<dots> = snd (sys_mkdir (foldl (?f path) k0 [CACHE_DIR_LEN ..< n]) path)"
    unfolding up foldl_append foldl_Cons a b c ..
  also have "foldl (?f path) k0 [CACHE_DIR_LEN ..< n] = mkdirs k path"
    unfolding mkdirs_def tp k0_def n_def ..
  finally show ?thesis unfolding P_def .
qed

lemma plain_cache_root: "list_all plain cache_root"
  by (simp add: cache_root_def plain_def)

lemma namei_cache:
  "list_all plain cs \<Longrightarrow> namei k (CACHE_DIR @ join cs) = walk k [] (cache_root @ cs)"
  "namei k ''/tmp/.wscache'' = walk k [] cache_root"
  by (simp_all add: namei_def components_cache components_join) (simp add: CACHE_DIR_def)

lemma namei_cache_result:
  assumes "list_all plain cs" and "namei k (CACHE_DIR @ join cs) = Some q"
  shows "q = cache_root @ cs"
proof -
  from assms have "walk k [] (cache_root @ cs) = Some q" by (simp add: namei_cache)
  moreover have "list_all plain (cache_root @ cs)" using assms(1) plain_cache_root by simp
  ultimately show ?thesis using walk_plain_result by fastforce
qed

lemma namei_root_result: "namei k ''/tmp/.wscache'' = Some q \<Longrightarrow> q = cache_root"
  using walk_plain_result [OF plain_cache_root, of k "[]" q] by (simp add: namei_cache)




lemma mkdirs_clean_added:
  assumes "clean cs" and "length (CACHE_DIR @ join cs) < PATH_MAX"
  shows "dirs_added (\<lambda>q. \<exists>j<length cs. q = cache_root @ take j cs) k
           (mkdirs k (CACHE_DIR @ join cs))"
  using assms
proof (induction cs rule: rev_induct)
  case Nil
  then show ?case by (simp add: clean_def)
next
  case (snoc c cs)
  from snoc.prems(1) have pc: "plain c" and pcs: "list_all plain cs"
    by (simp_all add: clean_def)
  then have ns: "CHR ''/'' \<notin> set c" by (simp add: plain_def)
  let ?S = "\<lambda>q. \<exists>j<length (cs @ [c]). q = cache_root @ take j (cs @ [c])"
  show ?case
  proof (cases "cs = []")
    case True
    have "dirs_added ?S k (snd (sys_mkdir k ''/tmp/.wscache''))"
    proof (rule sys_mkdir_added)
      fix q assume "namei k ''/tmp/.wscache'' = Some q"
      then have "q = cache_root" by (rule namei_root_result)
      then show "?S q" by auto
    qed
    then show ?thesis using True ns by (simp add: mkdirs_single)
  next
    case False
    define P where "P = CACHE_DIR @ join cs"
    have j: "join (cs @ [c]) = join cs @ CHR ''/'' # c" using False by (rule join_snoc)
    have l: "length (P @ CHR ''/'' # c) < PATH_MAX"
      using snoc.prems(2) by (simp add: j P_def)
    then have l': "length P < PATH_MAX" by simp
    have cl: "clean cs" using False pcs by (simp add: clean_def)
    have "dirs_added (\<lambda>q. \<exists>j<length cs. q = cache_root @ take j cs) k (mkdirs k P)"
      unfolding P_def using cl l' [unfolded P_def] by (rule snoc.IH)
    then have a: "dirs_added ?S k (mkdirs k P)"
    proof (rule dirs_added_mono)
      fix q assume "\<exists>j<length cs. q = cache_root @ take j cs"
      then obtain i where "i < length cs" "q = cache_root @ take i cs" by blast
      then have "i < length (cs @ [c])" "q = cache_root @ take i (cs @ [c])" by simp_all
      then show "?S q" by blast
    qed
    have b: "dirs_added ?S (mkdirs k P) (snd (sys_mkdir (mkdirs k P) P))"
    proof (rule sys_mkdir_added)
      fix q assume "namei (mkdirs k P) P = Some q"
      with pcs have "q = cache_root @ cs" unfolding P_def by (rule namei_cache_result)
      then have "length cs < length (cs @ [c])" "q = cache_root @ take (length cs) (cs @ [c])"
        by simp_all
      then show "?S q" by blast
    qed
    have "mkdirs k (P @ CHR ''/'' # c) = snd (sys_mkdir (mkdirs k P) P)"
      using ns _ l by (rule mkdirs_snoc) (simp add: P_def CACHE_DIR_def CACHE_DIR_LEN_def)
    with dirs_added_trans [OF a b] show ?thesis by (simp add: j P_def)
  qed
qed

lemma file_at_place:
  assumes "file_at k p = Some (t, old)"
  shows "namei k p = Some t" "fs k t = Some (File old)" "t \<noteq> []" "last p \<noteq> CHR ''/''"
    "node_at k t = Some (File old)"
proof -
  from assms obtain q where q: "namei k p = Some q" by (auto simp: file_at_def split: option.splits)
  with assms have n: "node_at k q = Some (File old)" "q = t" "last p \<noteq> CHR ''/''"
    by (auto simp: file_at_def split: option.splits node.splits if_splits)
  then show "node_at k t = Some (File old)" "last p \<noteq> CHR ''/''" by simp_all
  from q n show "namei k p = Some t" by simp
  from n show "t \<noteq> []" "fs k t = Some (File old)"
    by (auto simp: node_at_def split: if_splits)
qed

lemma file_at_upd:
  assumes "file_at k p = Some (t, old)" and "fs k' = (fs k)(t \<mapsto> File new)"
  shows "file_at k' p = Some (t, new)"
proof -
  note f = file_at_place [OF assms(1)]
  have "(node_at k' q = Some Dir) = (node_at k q = Some Dir)" for q
    using f(3,5) assms(2) by (auto simp: node_at_def)
  then have "namei k' p = namei k p" by (rule namei_same_dirs)
  moreover have "node_at k' t = Some (File new)" using f(3) assms(2) by (simp add: node_at_def)
  ultimately show ?thesis using f(1,4) by (simp add: file_at_def)
qed


lemma sys_write_fs:
  assumes "sys_write k p bs = (n, k1)" and "file_at k p = Some (t, old)"
  shows "\<exists>new. fs k1 = (fs k)(t \<mapsto> File new)"
proof -
  obtain c k0 where c: "next_choice k = (c, k0)" by (cases "next_choice k")
  with next_choice_fs(1) [of k] have f: "fs k0 = fs k" by simp
  have a: "file_at k0 p = Some (t, old)" using assms(2) fs_cong(2) [OF f] by simp
  have t: "(fs k)(t \<mapsto> File old) = fs k"
    using file_at_place(2) [OF assms(2)] by (rule map_upd_triv)
  show ?thesis
  proof (cases "fs k1 = fs k")
    case True
    with t show ?thesis by metis
  next
    case False
    with assms(1) c f a show ?thesis
      by (auto simp: sys_write_def split: option.splits if_splits)
  qed
qed

lemma write_chunk_fs:
  "write_chunk k p bs = (ok, k') \<Longrightarrow> file_at k p = Some (t, old) \<Longrightarrow>
     \<exists>new. fs k' = (fs k)(t \<mapsto> File new)"
proof (induction k p bs arbitrary: old rule: write_chunk.induct)
  case (1 k p bs)
  note fl = file_at_place [OF "1.prems"(2)]
  show ?case
  proof (cases "bs = []")
    case True
    with "1.prems" have "k' = k" by (simp add: write_chunk.simps)
    with fl(2) show ?thesis by (metis map_upd_triv)
  next
    case False
    obtain n k1 where w: "sys_write k p bs = (n, k1)" by (cases "sys_write k p bs")
    from sys_write_fs [OF w "1.prems"(2)] obtain mid where m: "fs k1 = (fs k)(t \<mapsto> File mid)"
      by blast
    show ?thesis
    proof (cases "n \<le> 0")
      case True
      with False w "1.prems"(1) have "k' = k1" by (simp add: write_chunk.simps [of k])
      with m show ?thesis by blast
    next
      case n: False
      with False w "1.prems"(1) have r: "write_chunk k1 p (drop (nat n) bs) = (ok, k')"
        by (simp add: write_chunk.simps [of k])
      have "file_at k1 p = Some (t, mid)" using "1.prems"(2) m by (rule file_at_upd)
      from "1.IH" [OF False w [symmetric] n r this] obtain new
        where "fs k' = (fs k1)(t \<mapsto> File new)" by blast
      with m have "fs k' = (fs k)(t \<mapsto> File new)" by simp
      then show ?thesis by blast
    qed
  qed
qed

lemma sys_unlink_file:
  "file_at k p = Some (t, old) \<Longrightarrow> fs (sys_unlink k p) = (fs k)(t := None)"
  by (simp add: sys_unlink_def)

lemma sys_rename_result:
  assumes "sys_rename k src dst = (rc, k1)"
  shows "(rc < 0 \<longrightarrow> rc = - 1 \<and> fs k1 = fs k)
       \<and> (\<not> rc < 0 \<longrightarrow> rc = 0 \<and> (\<exists>b. lookup k1 dst = Some (File b)))"
proof -
  obtain c k0 where c: "next_choice k = (c, k0)" by (cases "next_choice k")
  with next_choice_fs(1) [of k] have f: "fs k0 = fs k" by simp
  show ?thesis
  proof (cases "rc < 0")
    case True
    with assms c f show ?thesis
      by (auto simp: sys_rename_def split: option.splits if_splits)
  next
    case False
    with assms c obtain s b d where
      s: "file_at k0 src = Some (s, b)" and d: "namei k0 dst = Some d"
      and g: "last dst \<noteq> CHR ''/''" "node_at k0 d \<noteq> Some Dir"
      and r: "rc = 0" "if s = d then k1 = k0 else k1 = k0\<lparr>fs := (fs k0)(d \<mapsto> File b, s := None)\<rparr>"
      by (auto simp: sys_rename_def split: option.splits if_splits)
    note fl = file_at_place [OF s]
    have "lookup k1 dst = Some (File b)"
    proof (cases "s = d")
      case True
      with r have "k1 = k0" by simp
      with True fl d g(1) show ?thesis by (simp add: lookup_def)
    next
      case ne: False
      with r have k1: "fs k1 = (fs k0)(d \<mapsto> File b, s := None)" by simp
      have "(node_at k1 q = Some Dir) = (node_at k0 q = Some Dir)" for q
        using g(2) fl(5) k1 by (auto simp: node_at_def split: if_splits)
      then have "namei k1 dst = Some d" using d namei_same_dirs [of k1 k0 dst] by simp
      moreover from g(2) have "d \<noteq> []" by (auto simp: node_at_def)
      then have "node_at k1 d = Some (File b)" using k1 ne by (simp add: node_at_def)
      ultimately show ?thesis using g(1) by (simp add: lookup_def)
    qed
    with False r show ?thesis by simp
  qed
qed

lemma finish_download_result:
  assumes "finish_download w tmp cp = (rc, w')" and "file_at (os w) tmp = Some (t, old)"
  shows "(rc \<noteq> 0 \<longrightarrow> rc = - 1 \<and> fs (os w') = (fs (os w))(t := None))
       \<and> (rc = 0 \<longrightarrow> (\<exists>b. lookup (os w') cp = Some (File b)))"
proof -
  obtain r k where r: "sys_rename (os w) tmp cp = (r, k)" by (cases "sys_rename (os w) tmp cp")
  note s = sys_rename_result [OF r]
  show ?thesis
  proof (cases "r < 0")
    case True
    with s have "fs k = fs (os w)" by simp
    then have "file_at k tmp = Some (t, old)" "fs k = fs (os w)"
      using assms(2) fs_cong(2) [of k "os w" tmp] by simp_all
    then have "fs (sys_unlink k tmp) = (fs (os w))(t := None)"
      by (simp add: sys_unlink_def)
    with True r assms(1) show ?thesis by (auto simp: finish_download_def)
  next
    case False
    with s r assms(1) show ?thesis by (auto simp: finish_download_def)
  qed
qed

lemma remote_read_chunk_frame:
  assumes "remote_read_chunk E w rel off len = (r, w')"
  shows "os w' = os w \<and> in_hook w' = in_hook w
       \<and> (calls w' = calls w \<or> calls w' = calls w @ [read_request rel off len])"
proof -
  obtain rc wc where c: "vsock_connect E w = (rc, wc)" by (cases "vsock_connect E w")
  obtain resp w2 where s: "send_request E wc (read_request rel off len) = (resp, w2)"
    by (cases "send_request E wc (read_request rel off len)")
  from send_request_world [OF s]
  have "os w2 = os wc \<and> in_hook w2 = in_hook wc
       \<and> (calls w2 = calls wc \<or> calls w2 = calls wc @ [read_request rel off len])" by auto
  with assms c s vsock_connect_frame [OF c] show ?thesis
    by (auto simp: remote_read_chunk_def Let_def vsock_disconnect_frame
        split: if_splits option.splits)
qed

lemma download_result:
  "download E w rel cp tmp off fsz = (rc, w') \<Longrightarrow> file_at (os w) tmp = Some (t, old) \<Longrightarrow>
     (rc \<noteq> 0 \<longrightarrow> rc = - 1 \<and> fs (os w') = (fs (os w))(t := None))
   \<and> (rc = 0 \<longrightarrow> (\<exists>b. lookup (os w') cp = Some (File b)))"
proof (induction E w rel cp tmp off fsz arbitrary: old rule: download.induct)
  case (1 E w rel cp tmp off fsz)
  let ?want = "if fsz - off < ucast READ_CHUNK_SIZE then ucast (fsz - off) else READ_CHUNK_SIZE"
  show ?case
  proof (cases "off < fsz")
    case False
    with "1.prems"(1) have "finish_download w tmp cp = (rc, w')"
      by (simp add: download.simps [of E w])
    from finish_download_result [OF this "1.prems"(2)] show ?thesis .
  next
    case True
    obtain r w1 where rd: "remote_read_chunk E w rel off ?want = (r, w1)"
      by (cases "remote_read_chunk E w rel off ?want")
    from remote_read_chunk_frame [OF rd] have o: "os w1 = os w" by simp
    show ?thesis
    proof (cases r)
      case None
      with True rd "1.prems"(1) have "rc = - 1" "w' = w1\<lparr>os := sys_unlink (os w1) tmp\<rparr>"
        by (simp_all add: download.simps [of E w])
      with o "1.prems"(2) show ?thesis by (simp add: sys_unlink_def)
    next
      case (Some chunk)
      show ?thesis
      proof (cases "chunk = []")
        case e: True
        with Some True rd "1.prems"(1) have "finish_download w1 tmp cp = (rc, w')"
          by (simp add: download.simps [of E w])
        from finish_download_result [OF this, of t old] o "1.prems"(2) show ?thesis by simp
      next
        case ne: False
        obtain ok k where wc: "write_chunk (os w1) tmp chunk = (ok, k)"
          by (cases "write_chunk (os w1) tmp chunk")
        from write_chunk_fs [OF wc, of t old] o "1.prems"(2) obtain new
          where n: "fs k = (fs (os w))(t \<mapsto> File new)" by auto
        have fk: "file_at k tmp = Some (t, new)" using "1.prems"(2) n by (rule file_at_upd)
        show ?thesis
        proof (cases ok)
          case False
          with ne Some True rd wc "1.prems"(1)
          have "rc = - 1" "w' = w1\<lparr>os := sys_unlink k tmp\<rparr>"
            by (simp_all add: download.simps [of E w])
          with n fk show ?thesis by (simp add: sys_unlink_def)
        next
          case ok: True
          with ne Some True rd wc "1.prems"(1)
          have d: "download E (w1\<lparr>os := k\<rparr>) rel cp tmp (off + of_nat (length chunk)) fsz
                     = (rc, w')"
            by (simp add: download.simps [of E w])
          have f: "file_at (os (w1\<lparr>os := k\<rparr>)) tmp = Some (t, new)" using fk by simp
          have okT: "ok = True" using ok by simp
          have u: "(fs k)(t := None) = (fs (os w))(t := None)" by (simp add: n)
          from "1.IH" [OF True rd [symmetric] Some ne wc [symmetric] okT d f]
          show ?thesis by (simp add: u)
        qed
      qed
    qed
  qed
qed

lemma sys_mkstemp_result:
  assumes "sys_mkstemp k tmpl = (r, k2)"
  shows "(r = None \<longrightarrow> fs k2 = fs k)
       \<and> (\<forall>name. r = Some name \<longrightarrow>
            (\<exists>t. fs k t = None \<and> fs k2 = (fs k)(t \<mapsto> File []) \<and> file_at k2 name = Some (t, [])))"
proof -
  obtain c k0 where c: "next_choice k = (c, k0)" by (cases "next_choice k")
  with next_choice_fs(1) [of k] have f: "fs k0 = fs k" by simp
  show ?thesis
  proof (cases r)
    case None
    with assms c f show ?thesis
      by (auto simp: sys_mkstemp_def Let_def split: if_splits option.splits)
  next
    case (Some name)
    with assms c obtain t where
      t: "namei k0 name = Some t" "node_at k0 t = None" "last name \<noteq> CHR ''/''"
        "k2 = k0\<lparr>fs := (fs k0)(t \<mapsto> File [])\<rparr>"
      by (auto simp: sys_mkstemp_def Let_def split: if_splits option.splits)
    from t(2) have ne: "t \<noteq> []" "fs k0 t = None" by (auto simp: node_at_def split: if_splits)
    have "(node_at k2 q = Some Dir) = (node_at k0 q = Some Dir)" for q
      using t(2,4) by (auto simp: node_at_def)
    then have "namei k2 name = Some t" using t(1) namei_same_dirs [of k2 k0 name] by simp
    moreover have "node_at k2 t = Some (File [])" using ne t(4) by (simp add: node_at_def)
    ultimately have "file_at k2 name = Some (t, [])" using t(3) by (simp add: file_at_def)
    with ne t(4) f Some show ?thesis by auto
  qed
qed

lemma ensure_failure_frame:
  assumes "ensure_cached_file E w rel = (rc, w')" and "rc \<noteq> 0"
    and "dirs_added S (os w) (mkdirs (os w) (CACHE_DIR @ rel))"
  shows "rc = - 1 \<and> dirs_added S (os w) (os w')"
proof (cases "cache_path_for rel")
  case None
  with assms show ?thesis by (simp add: ensure_cached_file_def dirs_added_refl)
next
  case (Some cp)
  let ?cp = "CACHE_DIR @ rel"
  from Some have cp: "cp = ?cp" by (auto simp: cache_path_for_def Let_def split: if_splits)
  from assms Some have miss: "\<not> is_ok (real_fstatat E (os w) AT_FDCWD (Some cp) 0)"
    by (auto simp: ensure_cached_file_def)
  obtain r w1 where rs: "remote_stat E w rel = (r, w1)" by (cases "remote_stat E w rel")
  from remote_stat_frame [OF rs] have o: "os w1 = os w" by simp
  show ?thesis
  proof (cases r)
    case None
    with assms Some miss rs o show ?thesis
      by (simp add: ensure_cached_file_def dirs_added_same)
  next
    case st: (Some remote_st)
    from assms Some miss rs st have nd: "\<not> S_ISDIR (st_mode remote_st)"
      by (auto simp: ensure_cached_file_def)
    let ?k1 = "mkdirs (os w) ?cp"
    note g = assms(3)
    obtain t k2 where mk: "sys_mkstemp ?k1 (take (PATH_MAX - 1) (?cp @ ''.XXXXXX'')) = (t, k2)"
      by (cases "sys_mkstemp ?k1 (take (PATH_MAX - 1) (?cp @ ''.XXXXXX''))")
    note ms = sys_mkstemp_result [OF mk]
    show ?thesis
    proof (cases t)
      case None
      with assms Some miss rs st nd mk o cp have "rc = - 1" "os w' = k2"
        by (auto simp: ensure_cached_file_def)
      moreover from ms None have "dirs_added S ?k1 k2" by (simp add: dirs_added_same)
      ultimately show ?thesis using g by (auto intro: dirs_added_trans)
    next
      case tmp: (Some tmp)
      with ms obtain tk where fresh: "fs ?k1 tk = None"
        and made: "fs k2 = (fs ?k1)(tk \<mapsto> File [])" and fa: "file_at k2 tmp = Some (tk, [])"
        by auto
      from assms Some miss rs st nd mk o cp tmp
      have d: "download E (w1\<lparr>os := k2\<rparr>) rel ?cp tmp 0 (st_size remote_st) = (rc, w')"
        by (auto simp: ensure_cached_file_def)
      have "file_at (os (w1\<lparr>os := k2\<rparr>)) tmp = Some (tk, [])" using fa by simp
      from download_result [OF d this] assms(2)
      have "rc = - 1" and "fs (os w') = (fs k2)(tk := None)" by simp_all
      moreover have "(fs k2)(tk := None) = fs ?k1" using fresh made by (auto simp: fun_eq_iff)
      ultimately have "rc = - 1" "dirs_added S ?k1 (os w')" by (simp_all add: dirs_added_same)
      with g show ?thesis by (auto intro: dirs_added_trans)
    qed
  qed
qed

lemma cache_abs: "take 1 (CACHE_DIR @ rel) = ''/''"
  by (simp add: CACHE_DIR_def)

lemma stat_sees_cache:
  assumes "stat_sees_fs E"
  shows "is_ok (real_fstatat E k AT_FDCWD (Some (CACHE_DIR @ rel)) 0)
         = (lookup k (CACHE_DIR @ rel) \<noteq> None)"
  using assms [unfolded stat_sees_fs_def, rule_format, OF cache_abs] .

lemma ensure_hit:
  assumes "stat_sees_fs E" and "cache_path_for rel = Some cp" and "lookup (os w) cp \<noteq> None"
  shows "ensure_cached_file E w rel = (0, w)"
proof -
  from assms(2) have "cp = CACHE_DIR @ rel"
    by (auto simp: cache_path_for_def Let_def split: if_splits)
  with assms(2,3) stat_sees_cache [OF assms(1), of "os w" rel] show ?thesis
    by (simp add: ensure_cached_file_def)
qed

lemma ensure_success_exists:
  assumes "stat_sees_fs E" and "ensure_cached_file E w rel = (0, w1)"
    and "\<not> remote_is_dir E w rel"
  shows "cache_path_for rel = Some (CACHE_DIR @ rel) \<and> lookup (os w1) (CACHE_DIR @ rel) \<noteq> None"
proof -
  let ?cp = "CACHE_DIR @ rel"
  from assms(2) have cp: "cache_path_for rel = Some ?cp"
    by (rule ensure_ok_cache_path) simp
  have "lookup (os w1) ?cp \<noteq> None"
  proof (cases "is_ok (real_fstatat E (os w) AT_FDCWD (Some ?cp) 0)")
    case True
    with assms(2) cp have "w1 = w" by (simp add: ensure_cached_file_def)
    with True stat_sees_cache [OF assms(1), of "os w" rel] show ?thesis by simp
  next
    case miss: False
    obtain r wr where rs: "remote_stat E w rel = (r, wr)" by (cases "remote_stat E w rel")
    from remote_stat_frame [OF rs] have o: "os wr = os w" by simp
    show ?thesis
    proof (cases r)
      case None
      with assms(2) cp miss rs show ?thesis by (simp add: ensure_cached_file_def)
    next
      case st: (Some remote_st)
      with assms(3) rs have nd: "\<not> S_ISDIR (st_mode remote_st)"
        by (simp add: remote_is_dir_def)
      obtain t k2 where mk: "sys_mkstemp (mkdirs (os w) ?cp)
          (take (PATH_MAX - 1) (?cp @ ''.XXXXXX'')) = (t, k2)"
        by (cases "sys_mkstemp (mkdirs (os w) ?cp) (take (PATH_MAX - 1) (?cp @ ''.XXXXXX''))")
      note ms = sys_mkstemp_result [OF mk]
      show ?thesis
      proof (cases t)
        case None
        with assms(2) cp miss rs st nd mk o show ?thesis
          by (auto simp: ensure_cached_file_def)
      next
        case tmp: (Some tmp)
        with ms obtain tk where fa: "file_at k2 tmp = Some (tk, [])" by auto
        from assms(2) cp miss rs st nd mk o tmp
        have d: "download E (wr\<lparr>os := k2\<rparr>) rel ?cp tmp 0 (st_size remote_st) = (0, w1)"
          by (auto simp: ensure_cached_file_def)
        have "file_at (os (wr\<lparr>os := k2\<rparr>)) tmp = Some (tk, [])" using fa by simp
        from download_result [OF d this] show ?thesis by auto
      qed
    qed
  qed
  with cp show ?thesis by simp
qed

lemma open_hit_no_calls:
  assumes "stat_sees_fs E" and "\<not> in_hook w"
    and "resolve_path E dirfd pathname = Some resolved"
    and "is_workspace_path resolved = Some rel"
    and "cache_path_for rel = Some cp" and "lookup (os w) cp \<noteq> None"
  shows "calls (snd (openat E w dirfd pathname flags va)) = calls w
       \<and> nsock (snd (openat E w dirfd pathname flags va)) = nsock w
       \<and> vsock_fd (snd (openat E w dirfd pathname flags va)) = vsock_fd w"
proof -
  from assms(3) obtain p where p: "pathname = Some p"
    by (cases pathname) (simp_all add: resolve_path_def)
  have "ensure_cached_file E (w\<lparr>in_hook := True\<rparr>) rel = (0, w\<lparr>in_hook := True\<rparr>)"
    using assms by (intro ensure_hit [where cp = cp]) simp_all
  with assms p show ?thesis
    by (simp add: openat_def Let_def delegate_def)
qed

lemma sim_stat_sees_fs: "stat_sees_fs (sim_env h)"
  by (simp add: stat_sees_fs_def sim_env_fields sim_fstatat_def sim_path_def
      split: option.splits)

































lemma host_files_fields:
  "host_files c ''foo.txt''
     = Some \<lparr>r_mode = 0x1A4, r_mtime = 1000, r_is_dir = False, r_data = c\<rparr>"
  "host_files c ''a/b.txt''
     = Some \<lparr>r_mode = 0x1A4, r_mtime = 1000, r_is_dir = False, r_data = c\<rparr>"
  "host_files c ''docs''
     = Some \<lparr>r_mode = 0x1ED, r_mtime = 1000, r_is_dir = True, r_data = []\<rparr>"
  by (simp_all add: host_files_def)





lemma dirs_added_at: "dirs_added S k k' \<Longrightarrow> \<not> S p \<Longrightarrow> fs k' p = fs k p"
  unfolding dirs_added_def by (erule allE [of _ p]) simp

lemma ensure_failure_plain:
  assumes "ensure_cached_file E w rel = (rc, w')" and "rc \<noteq> 0"
    and "clean cs" and "rel = join cs"
  shows "dirs_added (\<lambda>q. \<exists>j<length cs. q = cache_root @ take j cs) (os w) (os w')
       \<and> fs (os w') (cache_root @ cs) = fs (os w) (cache_root @ cs)"
proof -
  let ?S = "\<lambda>q. \<exists>j<length cs. q = cache_root @ take j cs"
  have d: "dirs_added ?S (os w) (os w')"
  proof (cases "cache_path_for rel")
    case None
    with assms(1) show ?thesis by (simp add: ensure_cached_file_def dirs_added_refl)
  next
    case (Some cp)
    then have "length (CACHE_DIR @ join cs) < PATH_MAX"
      by (auto simp: cache_path_for_def Let_def assms(4) split: if_splits)
    with assms(3) have "dirs_added ?S (os w) (mkdirs (os w) (CACHE_DIR @ join cs))"
      by (rule mkdirs_clean_added)
    with ensure_failure_frame [OF assms(1,2), of ?S] show ?thesis by (simp add: assms(4))
  qed
  have "\<not> ?S (cache_root @ cs)"
  proof
    assume "?S (cache_root @ cs)"
    then obtain i where i: "i < length cs" "cache_root @ cs = cache_root @ take i cs" by blast
    from i(2) have "length (cache_root @ cs) = length (cache_root @ take i cs)" by (rule arg_cong)
    with i(1) show False by simp
  qed
  with d dirs_added_at [of ?S "os w" "os w'" "cache_root @ cs"] show ?thesis by simp
qed

lemma flaky_run:
  "fst (ensure_cached_file flaky_env world0 ''foo.txt'') = - 1"
  "fs (os (snd (ensure_cached_file flaky_env world0 ''foo.txt'')))
     [''tmp'', ''.wscache'', ''foo.txt.a1B2c3''] = None"
  "fs (os (snd (ensure_cached_file flaky_env world0 ''foo.txt''))) [''tmp'', ''.wscache'']
     = Some Dir"
  by code_simp+

lemma write_fault_run:
  "fst (ensure_cached_file tiny_env write_fault_world ''foo.txt'') = - 1"
  "fs (os (snd (ensure_cached_file tiny_env write_fault_world ''foo.txt'')))
     [''tmp'', ''.wscache'', ''foo.txt.a1B2c3''] = None"
  by code_simp+

lemma rename_fault_run:
  "fst (ensure_cached_file tiny_env rename_fault_world ''foo.txt'') = - 1"
  "fs (os (snd (ensure_cached_file tiny_env rename_fault_world ''foo.txt'')))
     [''tmp'', ''.wscache'', ''foo.txt.a1B2c3''] = None"
  by code_simp+

lemma cut_run:
  "fst (ensure_cached_file cut_env world0 ''foo.txt'') = 0"
  "map_option st_size (fst (remote_stat cut_env world0 ''foo.txt'')) = Some 5"
  "calls (snd (ensure_cached_file cut_env world0 ''foo.txt''))
     = [stat_request ''foo.txt'', read_request ''foo.txt'' 0 5, read_request ''foo.txt'' 2 3]"
  "lookup (os (snd (ensure_cached_file cut_env world0 ''foo.txt''))) ''/tmp/.wscache/foo.txt''
     = Some (File [10, 20])"
  by code_simp+

lemma alias_run:
  "fst (ensure_cached_file cut_env world0 ''a/'') = - 1"
  "lookup (os world0) ''/tmp/.wscache/a/'' = None"
  "lookup (os (snd (ensure_cached_file cut_env world0 ''a/''))) ''/tmp/.wscache/a/'' = Some Dir"
  by code_simp+

lemma tiny_first_open:
  "fst (openat tiny_env world0 AT_FDCWD (Some ''/workspace/foo.txt'') O_RDONLY 0) = Ok 3"
  "\<not> remote_is_dir tiny_env (world0\<lparr>in_hook := True\<rparr>) ''foo.txt''"
  "lookup (os (snd (openat tiny_env world0 AT_FDCWD (Some ''/workspace/foo.txt'') O_RDONLY 0)))
     (CACHE_DIR @ ''foo.txt'')
   = lookup (os (snd (ensure_cached_file tiny_env (world0\<lparr>in_hook := True\<rparr>) ''foo.txt'')))
       (CACHE_DIR @ ''foo.txt'')"
  "calls (snd (openat tiny_env world0 AT_FDCWD (Some ''/workspace/foo.txt'') O_RDONLY 0))
     = [stat_request ''foo.txt'', read_request ''foo.txt'' 0 3]"
  by code_simp+

lemma cached_lookup: "lookup (os cached_world) ''/tmp/.wscache/foo.txt'' = Some (File [10, 20, 30])"
  by code_simp

lemma mkdir_fault_run:
  "fst (ensure_cached_file tiny_env mkdir_fault_world ''docs'') = 0"
  "calls (snd (ensure_cached_file tiny_env mkdir_fault_world ''docs'')) = [stat_request ''docs'']"
  "lookup (os (snd (ensure_cached_file tiny_env mkdir_fault_world ''docs''))) ''/tmp/.wscache/docs''
     = None"
  "fst (ensure_cached_file tiny_env
          (snd (ensure_cached_file tiny_env mkdir_fault_world ''docs'')) ''docs'') = 0"
  "calls (snd (ensure_cached_file tiny_env
                 (snd (ensure_cached_file tiny_env mkdir_fault_world ''docs'')) ''docs''))
     = [stat_request ''docs'', stat_request ''docs'']"
  by code_simp+

lemma mkdir_fault_open:
  "fst (openat tiny_env mkdir_fault_world AT_FDCWD (Some ''/workspace/docs'') O_RDONLY 0)
     = Err ENOENT"
  "calls (snd (openat tiny_env
     (snd (openat tiny_env mkdir_fault_world AT_FDCWD (Some ''/workspace/docs'') O_RDONLY 0))
     AT_FDCWD (Some ''/workspace/docs'') O_RDONLY 0))
     = [stat_request ''docs'', stat_request ''docs'']"
  by code_simp+

lemma ensure_cached_hit:
  "ensure_cached_file spy_env (cached_world\<lparr>in_hook := True\<rparr>) ''foo.txt''
     = (0, cached_world\<lparr>in_hook := True\<rparr>)"
proof -
  have "real_fstatat spy_env = sim_fstatat" by (simp add: spy_env_def E0_def sim_env_def)
  then show ?thesis
    by (simp add: ensure_cached_file_def cache_path_foo sim_fstatat_def sim_path_def
        cached_lookup)
qed

lemma keep_bits:
  fixes f :: "32 word"
  assumes "t AND NOT m = t"
  shows "(f AND NOT m) AND t = f AND t"
proof -
  have "(f AND NOT m) AND t = f AND (t AND NOT m)" by (simp add: ac_simps)
  then show ?thesis by (simp only: assms)
qed

lemma mask_cleared:
  fixes f :: "32 word"
  shows "(f AND NOT m) AND m = 0"
  by (rule bit_word_eqI) (auto simp: bit_simps)

lemma truncate_run:
  "fst (openat tiny_env cached_world AT_FDCWD (Some ''/workspace/foo.txt'') (O_RDONLY OR O_TRUNC) 0)
     = Ok 3"
  "calls (snd (openat tiny_env cached_world AT_FDCWD (Some ''/workspace/foo.txt'')
                 (O_RDONLY OR O_TRUNC) 0)) = []"
  "lookup (os (snd (openat tiny_env cached_world AT_FDCWD (Some ''/workspace/foo.txt'')
                      (O_RDONLY OR O_TRUNC) 0))) ''/tmp/.wscache/foo.txt'' = Some (File [])"
  "fst (openat tiny_env
          (snd (openat tiny_env cached_world AT_FDCWD (Some ''/workspace/foo.txt'')
                  (O_RDONLY OR O_TRUNC) 0))
          AT_FDCWD (Some ''/workspace/foo.txt'') O_RDONLY 0) = Ok 3"
  "calls (snd (openat tiny_env
          (snd (openat tiny_env cached_world AT_FDCWD (Some ''/workspace/foo.txt'')
                  (O_RDONLY OR O_TRUNC) 0))
          AT_FDCWD (Some ''/workspace/foo.txt'') O_RDONLY 0)) = []"
  "lookup (os (snd (openat tiny_env
          (snd (openat tiny_env cached_world AT_FDCWD (Some ''/workspace/foo.txt'')
                  (O_RDONLY OR O_TRUNC) 0))
          AT_FDCWD (Some ''/workspace/foo.txt'') O_RDONLY 0))) ''/tmp/.wscache/foo.txt''
     = Some (File [])"
  by code_simp+

subsection \<open>The download of a file of 3,000,000 bytes\<close>



subsection \<open>The namespace is read-only\<close>

text \<open>
  C2. For a path inside the namespace, an open with \<^verbatim>\<open>O_WRONLY\<close> or \<^verbatim>\<open>O_RDWR\<close>, an
  access check with \<^verbatim>\<open>W_OK\<close> and a stream open whose mode has \<^verbatim>\<open>w\<close>, \<^verbatim>\<open>a\<close> or
  \<^verbatim>\<open>+\<close> fail with \<^verbatim>\<open>EROFS\<close>, and the state is the one before the call: no request
  was sent, no connection made, no file touched.
\<close>

theorem write_intent_rejected:
  assumes "\<not> in_hook w"
    and "resolve_path E dirfd pathname = Some resolved"
    and "is_workspace_path resolved = Some rel"
  shows "(flags AND O_WRONLY \<noteq> 0 \<or> flags AND O_RDWR \<noteq> 0 \<longrightarrow>
            openat E w dirfd pathname flags va = (Err EROFS, w)
          \<and> openat64 E w dirfd pathname flags va = (Err EROFS, w))
       \<and> (amode AND W_OK \<noteq> 0 \<longrightarrow>
            faccessat E w dirfd pathname amode aflags = (Err EROFS, w))
       \<and> (dirfd = AT_FDCWD \<longrightarrow>
            (flags AND O_WRONLY \<noteq> 0 \<or> flags AND O_RDWR \<noteq> 0 \<longrightarrow>
               open' E w pathname flags va = (Err EROFS, w)
             \<and> open64 E w pathname flags va = (Err EROFS, w))
          \<and> (amode AND W_OK \<noteq> 0 \<longrightarrow> access E w pathname amode = (Err EROFS, w))
          \<and> (CHR ''w'' \<in> set fmode \<or> CHR ''a'' \<in> set fmode \<or> CHR ''+'' \<in> set fmode \<longrightarrow>
               fopen E w pathname fmode = (Err EROFS, w)
             \<and> fopen64 E w pathname fmode = (Err EROFS, w)))"
proof -
  from assms(2) obtain p where p: "pathname = Some p"
    by (cases pathname) (simp_all add: resolve_path_def)
  have o: "openat E w dirfd pathname flags v = (Err EROFS, w)"
    if "flags AND O_WRONLY \<noteq> 0 \<or> flags AND O_RDWR \<noteq> 0" for v
    using assms p that by (simp add: openat_def Let_def and_or_nonzero)
  have a: "faccessat E w dirfd pathname amode fl = (Err EROFS, w)"
    if "amode AND W_OK \<noteq> 0" for fl
    using assms p that by (simp add: faccessat_def)
  have f: "fopen E w pathname fmode = (Err EROFS, w)"
    if "dirfd = AT_FDCWD"
      and "CHR ''w'' \<in> set fmode \<or> CHR ''a'' \<in> set fmode \<or> CHR ''+'' \<in> set fmode"
    using assms p that by (auto simp: fopen_def)
  show ?thesis
    using o a f by (auto simp: openat64_def open'_def open64_def access_def fopen64_def)
qed

theorem write_intent_rejected_witness:
  "openat E0 world0 AT_FDCWD (Some ''/workspace/foo.txt'') (O_WRONLY OR O_CREAT) 0x1A4
     = (Err EROFS, world0)
   \<and> open' E0 world0 (Some ''/workspace/foo.txt'') O_RDWR 0 = (Err EROFS, world0)
   \<and> faccessat E0 world0 AT_FDCWD (Some ''/workspace/foo.txt'') W_OK 0 = (Err EROFS, world0)
   \<and> fopen E0 world0 (Some ''/workspace/foo.txt'') ''a+'' = (Err EROFS, world0)
   \<and> calls world0 = []"
proof -
  have r: "resolve_path E0 AT_FDCWD (Some ''/workspace/foo.txt'') = Some ''/workspace/foo.txt''"
    by (simp add: resolve_path_def PATH_MAX_def)
  have i: "is_workspace_path ''/workspace/foo.txt'' = Some ''foo.txt''"
    by (simp add: is_workspace_path_def WORKSPACE_PREFIX_LEN_def WORKSPACE_PREFIX_def)
  have h: "\<not> in_hook world0" by (simp add: world0_def)
  show ?thesis
    using write_intent_rejected [OF h r i, of "O_WRONLY OR O_CREAT" "0x1A4" W_OK 0 "''a+''"]
      write_intent_rejected [OF h r i, of O_RDWR 0 0 0 "''r''"]
    by (simp add: O_WRONLY_def O_CREAT_def O_RDWR_def W_OK_def world0_def)
qed

subsection \<open>Paths outside the namespace\<close>

text \<open>
  C3. For a path outside the namespace, and for a path whose resolution fails, every
  intercepted entry point calls the real function with the arguments it was given and
  returns what the real function returns: the result (a value, or the failure with its
  \<^verbatim>\<open>errno\<close>) and the state are those of the real call. The functions without a
  directory descriptor resolve against \<^verbatim>\<open>AT_FDCWD\<close>. The mode an open passes on is the
  variadic argument wherever the flags have \<^verbatim>\<open>O_CREAT\<close>, all of \<^verbatim>\<open>O_TMPFILE\<close> (the two
  cases in which the C library reads it) or \<^verbatim>\<open>O_DIRECTORY\<close>, and \<open>0\<close> where they have
  no bit of \<^verbatim>\<open>O_CREAT | O_TMPFILE\<close>.
\<close>

theorem outside_namespace_delegates:
  assumes "outside E dirfd pathname"
  shows "openat E w dirfd pathname flags va =
           delegate w (real_openat E (os w) dirfd pathname flags (va_mode flags va))
       \<and> openat64 E w dirfd pathname flags va =
           delegate w (real_openat E (os w) dirfd pathname flags (va_mode flags va))
       \<and> fstatat E w dirfd pathname sflags = (real_fstatat E (os w) dirfd pathname sflags, w)
       \<and> faccessat E w dirfd pathname amode aflags =
           (real_faccessat E (os w) dirfd pathname amode aflags, w)
       \<and> (dirfd = AT_FDCWD \<longrightarrow>
            open' E w pathname flags va =
              delegate w (real_openat E (os w) AT_FDCWD pathname flags (va_mode flags va))
          \<and> open64 E w pathname flags va =
              delegate w (real_openat E (os w) AT_FDCWD pathname flags (va_mode flags va))
          \<and> stat E w pathname = (real_fstatat E (os w) AT_FDCWD pathname 0, w)
          \<and> lstat E w pathname =
              (real_fstatat E (os w) AT_FDCWD pathname AT_SYMLINK_NOFOLLOW, w)
          \<and> xstat E w ver pathname = (real_fstatat E (os w) AT_FDCWD pathname 0, w)
          \<and> lxstat E w ver pathname =
              (real_fstatat E (os w) AT_FDCWD pathname AT_SYMLINK_NOFOLLOW, w)
          \<and> access E w pathname amode = (real_faccessat E (os w) AT_FDCWD pathname amode 0, w)
          \<and> fopen E w pathname fmode = delegate w (real_fopen E (os w) pathname fmode)
          \<and> fopen64 E w pathname fmode = delegate w (real_fopen E (os w) pathname fmode))
       \<and> (flags AND O_CREAT \<noteq> 0 \<or> flags AND O_TMPFILE = O_TMPFILE \<or> flags AND O_DIRECTORY \<noteq> 0
            \<longrightarrow> va_mode flags va = va)
       \<and> (flags AND (O_CREAT OR O_TMPFILE) = 0 \<longrightarrow> va_mode flags va = 0)"
proof -
  have vm: "va_mode flags (va_mode flags va) = va_mode flags va"
    by (simp add: va_mode_def)
  have o: "openat E w dirfd pathname flags v =
           delegate w (real_openat E (os w) dirfd pathname flags (va_mode flags v))" for v
    using assms by (auto simp: openat_def outside_def Let_def split: option.splits)
  have s: "fstatat E w dirfd pathname fl = (real_fstatat E (os w) dirfd pathname fl, w)" for fl
    using assms by (auto simp: fstatat_def outside_def split: option.splits)
  have a: "faccessat E w dirfd pathname m fl =
           (real_faccessat E (os w) dirfd pathname m fl, w)" for m fl
    using assms by (auto simp: faccessat_def outside_def split: option.splits)
  have f: "fopen E w pathname fmode = delegate w (real_fopen E (os w) pathname fmode)"
    if "dirfd = AT_FDCWD"
    using assms that by (auto simp: fopen_def outside_def split: option.splits)
  have t: "O_TMPFILE = 0x400000 OR O_DIRECTORY" "O_TMPFILE \<noteq> 0"
    by (simp_all add: O_TMPFILE_def O_DIRECTORY_def)
  have m: "va_mode flags va = va"
    if "flags AND O_CREAT \<noteq> 0 \<or> flags AND O_TMPFILE = O_TMPFILE \<or> flags AND O_DIRECTORY \<noteq> 0"
  proof -
    have "flags AND O_TMPFILE \<noteq> 0" if "flags AND O_TMPFILE = O_TMPFILE"
      using that t(2) by simp
    moreover have "flags AND O_TMPFILE \<noteq> 0" if "flags AND O_DIRECTORY \<noteq> 0"
      unfolding t(1) using that by (simp add: and_or_nonzero)
    ultimately have "flags AND O_CREAT \<noteq> 0 \<or> flags AND O_TMPFILE \<noteq> 0"
      using that by blast
    then show ?thesis by (simp add: va_mode_def and_or_nonzero)
  qed
  have z: "va_mode flags va = 0" if "flags AND (O_CREAT OR O_TMPFILE) = 0"
    using that by (simp add: va_mode_def)
  show ?thesis
    using f o s a m z by (auto simp: vm openat64_def open'_def open64_def stat_def lstat_def
        xstat_def lxstat_def access_def fopen64_def)
qed

theorem outside_namespace_delegates_witness:
  "outside E0 AT_FDCWD (Some ''notes.txt'')
   \<and> openat E0 world0 AT_FDCWD (Some ''notes.txt'') O_RDONLY 0 = (Err ENOENT, world0)
   \<and> fstatat E0 world0 AT_FDCWD (Some ''notes.txt'') 0 = (Err ENOENT, world0)
   \<and> faccessat E0 world0 AT_FDCWD (Some ''notes.txt'') 4 0 = (Err ENOENT, world0)
   \<and> fopen E0 world0 (Some ''notes.txt'') ''r'' = (Err ENOENT, world0)
   \<and> openat mode_spy_env world0 AT_FDCWD (Some ''/tmp'') O_DIRECTORY 0x1A4 = (Ok 0x1A4, world0)
   \<and> openat mode_spy_env world0 AT_FDCWD (Some ''/tmp'') O_RDONLY 0x1A4 = (Ok 0, world0)"
proof -
  have h: "outside E0 AT_FDCWD (Some ''notes.txt'')"
    by (simp add: outside_def resolve_path_def getcwd_def is_workspace_path_def E0_def
        sim_env_def PATH_MAX_def WORKSPACE_PREFIX_LEN_def WORKSPACE_PREFIX_def
        WORKSPACE_DIR_def)
  have g: "outside mode_spy_env AT_FDCWD (Some ''/tmp'')"
    by (simp add: outside_def resolve_path_def is_workspace_path_def PATH_MAX_def
        WORKSPACE_PREFIX_LEN_def WORKSPACE_PREFIX_def WORKSPACE_DIR_def)
  have l: "lookup (os world0) ''/home/user/notes.txt'' = None"
    "namei (os world0) ''/home/user/notes.txt'' = None"
    by (simp_all add: lookup_def namei_def components_def node_at_def world0_def)
  have m: "real_openat mode_spy_env k d p fl md = (Ok (uint md), k)" for k d p fl md
    by (simp add: mode_spy_env_def)
  have v: "va_mode O_DIRECTORY 0x1A4 = 0x1A4" "va_mode O_RDONLY 0x1A4 = 0"
    by (simp_all add: va_mode_def O_DIRECTORY_def O_CREAT_def O_TMPFILE_def O_RDONLY_def)
  show ?thesis
    using h outside_namespace_delegates [OF h, of world0 O_RDONLY 0 0 4 0 0 "''r''"]
      outside_namespace_delegates [OF g, of world0 O_DIRECTORY "0x1A4" 0 0 0 0 "''r''"]
      outside_namespace_delegates [OF g, of world0 O_RDONLY "0x1A4" 0 0 0 0 "''r''"]
    by (simp add: delegate_def E0_def sim_env_def sim_openat_def sim_fstatat_def
        sim_faccessat_def sim_fopen_def sim_path_def l m v O_RDONLY_def)
qed

subsection \<open>Failed population\<close>

text \<open>
  C4, as amended. When populating the cache fails as the code detects it,
  \<^verbatim>\<open>ensure_cached_file\<close> returns \<^verbatim>\<open>-1\<close> and the only change to the file system is
  directories at places that were empty (the ancestors \<^verbatim>\<open>mkdirs\<close> made): no regular
  file is made, changed or removed anywhere, so the temporary file is gone and no part of
  a download is left. For a relative path in plain form these directories lie strictly
  above the cache entry, whose place holds what it held before. Each failure the code
  detects is reported: a failed remote stat on a cache miss makes \<^verbatim>\<open>ensure_cached_file\<close>
  return \<^verbatim>\<open>-1\<close>; a failed read or a failed write in a turn of the download loop, and a
  failed rename after it, make the download return \<^verbatim>\<open>-1\<close>. A read that returns no bytes
  is not among them: it ends the loop, and the download goes on to the rename.
\<close>

theorem failed_population_leaves_no_trace:
  "(ensure_cached_file E w rel = (rc, w') \<and> rc \<noteq> 0 \<longrightarrow>
      rc = - 1 \<and> dirs_added (\<lambda>q. True) (os w) (os w'))
   \<and> (ensure_cached_file E w rel = (rc, w') \<and> rc \<noteq> 0 \<and> clean cs \<and> rel = join cs \<longrightarrow>
        dirs_added (\<lambda>q. \<exists>j<length cs. q = cache_root @ take j cs) (os w) (os w')
      \<and> fs (os w') (cache_root @ cs) = fs (os w) (cache_root @ cs))
   \<and> (cache_path_for rel = Some cp
        \<and> \<not> is_ok (real_fstatat E (os w) AT_FDCWD (Some cp) 0)
        \<and> fst (remote_stat E w rel) = None \<longrightarrow>
        fst (ensure_cached_file E w rel) = - 1)
   \<and> (off < fsz
        \<and> fst (remote_read_chunk E w rel off
                 (if fsz - off < ucast READ_CHUNK_SIZE then ucast (fsz - off)
                  else READ_CHUNK_SIZE)) = None \<longrightarrow>
        fst (download E w rel cp tmp off fsz) = - 1)
   \<and> (off < fsz
        \<and> remote_read_chunk E w rel off
              (if fsz - off < ucast READ_CHUNK_SIZE then ucast (fsz - off)
               else READ_CHUNK_SIZE) = (Some chunk, w1)
        \<and> chunk \<noteq> [] \<and> \<not> fst (write_chunk (os w1) tmp chunk) \<longrightarrow>
        fst (download E w rel cp tmp off fsz) = - 1)
   \<and> (fst (sys_rename (os w) tmp cp) < 0 \<longrightarrow> fst (finish_download w tmp cp) = - 1)
   \<and> (off < fsz
        \<and> remote_read_chunk E w rel off
              (if fsz - off < ucast READ_CHUNK_SIZE then ucast (fsz - off)
               else READ_CHUNK_SIZE) = (Some [], w1) \<longrightarrow>
        download E w rel cp tmp off fsz = finish_download w1 tmp cp)"
proof -
  have a: "rc = - 1 \<and> dirs_added (\<lambda>q. True) (os w) (os w')"
    if "ensure_cached_file E w rel = (rc, w')" "rc \<noteq> 0"
    using that mkdirs_added by (rule ensure_failure_frame)
  have a': "dirs_added (\<lambda>q. \<exists>j<length cs. q = cache_root @ take j cs) (os w) (os w')
      \<and> fs (os w') (cache_root @ cs) = fs (os w) (cache_root @ cs)"
    if "ensure_cached_file E w rel = (rc, w')" "rc \<noteq> 0" "clean cs" "rel = join cs"
    using that by (rule ensure_failure_plain)
  have b: "fst (ensure_cached_file E w rel) = - 1"
    if "cache_path_for rel = Some cp" "\<not> is_ok (real_fstatat E (os w) AT_FDCWD (Some cp) 0)"
      "fst (remote_stat E w rel) = None"
    using that by (cases "remote_stat E w rel") (simp add: ensure_cached_file_def)
  have c: "fst (download E w rel cp tmp off fsz) = - 1"
    if "off < fsz" "fst (remote_read_chunk E w rel off
                 (if fsz - off < ucast READ_CHUNK_SIZE then ucast (fsz - off)
                  else READ_CHUNK_SIZE)) = None"
    using that
    by (cases "remote_read_chunk E w rel off
                 (if fsz - off < ucast READ_CHUNK_SIZE then ucast (fsz - off)
                  else READ_CHUNK_SIZE)")
      (simp add: download.simps [of E w])
  have d: "fst (download E w rel cp tmp off fsz) = - 1"
    if "off < fsz" "remote_read_chunk E w rel off
              (if fsz - off < ucast READ_CHUNK_SIZE then ucast (fsz - off)
               else READ_CHUNK_SIZE) = (Some chunk, w1)"
      "chunk \<noteq> []" "\<not> fst (write_chunk (os w1) tmp chunk)"
    using that
    by (cases "write_chunk (os w1) tmp chunk") (simp add: download.simps [of E w])
  have e: "fst (finish_download w tmp cp) = - 1" if "fst (sys_rename (os w) tmp cp) < 0"
    using that by (cases "sys_rename (os w) tmp cp") (simp add: finish_download_def)
  have f: "download E w rel cp tmp off fsz = finish_download w1 tmp cp"
    if "off < fsz" "remote_read_chunk E w rel off
              (if fsz - off < ucast READ_CHUNK_SIZE then ucast (fsz - off)
               else READ_CHUNK_SIZE) = (Some [], w1)"
    using that by (simp add: download.simps [of E w])
  show ?thesis using a a' b c d e f by blast
qed

theorem failed_population_leaves_no_trace_witness:
  "fst (ensure_cached_file flaky_env world0 ''foo.txt'') = - 1
   \<and> dirs_added (\<lambda>q. \<exists>j<length [''foo.txt'']. q = cache_root @ take j [''foo.txt''])
         (os world0) (os (snd (ensure_cached_file flaky_env world0 ''foo.txt'')))
   \<and> fs (os (snd (ensure_cached_file flaky_env world0 ''foo.txt'')))
         (cache_root @ [''foo.txt'']) = fs (os world0) (cache_root @ [''foo.txt''])
   \<and> fs (os (snd (ensure_cached_file flaky_env world0 ''foo.txt'')))
         [''tmp'', ''.wscache'', ''foo.txt.a1B2c3''] = None
   \<and> fs (os (snd (ensure_cached_file flaky_env world0 ''foo.txt''))) [''tmp'', ''.wscache'']
         = Some Dir
   \<and> fst (ensure_cached_file tiny_env write_fault_world ''foo.txt'') = - 1
   \<and> fs (os (snd (ensure_cached_file tiny_env write_fault_world ''foo.txt'')))
         (cache_root @ [''foo.txt'']) = fs (os write_fault_world) (cache_root @ [''foo.txt''])
   \<and> fs (os (snd (ensure_cached_file tiny_env write_fault_world ''foo.txt'')))
         [''tmp'', ''.wscache'', ''foo.txt.a1B2c3''] = None
   \<and> fst (ensure_cached_file tiny_env rename_fault_world ''foo.txt'') = - 1
   \<and> fs (os (snd (ensure_cached_file tiny_env rename_fault_world ''foo.txt'')))
         (cache_root @ [''foo.txt'']) = fs (os rename_fault_world) (cache_root @ [''foo.txt''])
   \<and> fs (os (snd (ensure_cached_file tiny_env rename_fault_world ''foo.txt'')))
         [''tmp'', ''.wscache'', ''foo.txt.a1B2c3''] = None"
proof -
  note t = failed_population_leaves_no_trace [THEN conjunct2, THEN conjunct1, rule_format]
  have h: "fst (ensure_cached_file flaky_env world0 ''foo.txt'') \<noteq> 0"
    "fst (ensure_cached_file tiny_env write_fault_world ''foo.txt'') \<noteq> 0"
    "fst (ensure_cached_file tiny_env rename_fault_world ''foo.txt'') \<noteq> 0"
    by (simp_all add: flaky_run write_fault_run rename_fault_run)
  have c: "clean [''foo.txt''] \<and> ''foo.txt'' = join [''foo.txt'']"
    by (simp add: clean_def plain_def)
  from t [OF conjI [OF prod.collapse [symmetric] conjI [OF h(1) c]]]
    t [OF conjI [OF prod.collapse [symmetric] conjI [OF h(2) c]]]
    t [OF conjI [OF prod.collapse [symmetric] conjI [OF h(3) c]]]
    flaky_run write_fault_run rename_fault_run
  show ?thesis by simp
qed

text \<open>
  C4 as stated fails. The host reports five bytes, serves two, and answers the next
  \<^verbatim>\<open>READ\<close> with three bytes in all, less than the header of a \<^verbatim>\<open>READ\<close> response: the
  read is taken as the end of the stream, the two bytes are renamed onto the cache path
  and \<^verbatim>\<open>ensure_cached_file\<close> returns \<open>0\<close>. And for the relative path \<^verbatim>\<open>a/\<close> the
  rename fails and \<^verbatim>\<open>-1\<close> is returned, but \<^verbatim>\<open>mkdirs\<close> has made the directory that the
  cache path \<^verbatim>\<open>/tmp/.wscache/a/\<close> names, which did not exist before.
\<close>

theorem short_read_publishes_partial_file:
  "map_option st_size (fst (remote_stat cut_env world0 ''foo.txt'')) = Some 5
   \<and> host cut_env 2 (read_request ''foo.txt'' 2 3) = frame [0, 0, 0]
   \<and> fst (ensure_cached_file cut_env world0 ''foo.txt'') = 0
   \<and> calls (snd (ensure_cached_file cut_env world0 ''foo.txt''))
       = [stat_request ''foo.txt'', read_request ''foo.txt'' 0 5, read_request ''foo.txt'' 2 3]
   \<and> lookup (os (snd (ensure_cached_file cut_env world0 ''foo.txt''))) ''/tmp/.wscache/foo.txt''
       = Some (File [10, 20])
   \<and> fst (ensure_cached_file cut_env world0 ''a/'') = - 1
   \<and> lookup (os world0) ''/tmp/.wscache/a/'' = None
   \<and> lookup (os (snd (ensure_cached_file cut_env world0 ''a/''))) ''/tmp/.wscache/a/''
       = Some Dir"
proof -
  have "host cut_env 2 (read_request ''foo.txt'' 2 3) = frame [0, 0, 0]"
    by (simp add: cut_env_def sim_env_fields cut_host_def)
  with cut_run alias_run show ?thesis by simp
qed

subsection \<open>Cache hits\<close>

text \<open>
  C5, as amended. With a C library whose status query sees the modelled file system: if
  the cache path names an object, \<^verbatim>\<open>ensure_cached_file\<close> returns \<open>0\<close> and the state
  is unchanged (no request, no connection). Once it has succeeded for an object the host
  does not report as a directory, the cache path names an object and it succeeds again
  without changing anything; so it does after any success that left an object at the
  cache path. An open of a workspace path whose cache path names an object sends no
  request and leaves the connection alone; and so does a second open of a path the host
  does not report as a directory, after a first one succeeded, where the real open left
  the cache entry in place.
\<close>

theorem cached_entry_needs_no_host:
  assumes "stat_sees_fs E"
  shows "(cache_path_for rel = Some cp \<and> lookup (os w) cp \<noteq> None \<longrightarrow>
            ensure_cached_file E w rel = (0, w))
       \<and> (ensure_cached_file E w rel = (0, w1) \<and> \<not> remote_is_dir E w rel \<longrightarrow>
            lookup (os w1) (CACHE_DIR @ rel) \<noteq> None
          \<and> ensure_cached_file E w1 rel = (0, w1))
       \<and> (ensure_cached_file E w rel = (0, w1) \<and> lookup (os w1) (CACHE_DIR @ rel) \<noteq> None \<longrightarrow>
            ensure_cached_file E w1 rel = (0, w1))
       \<and> (\<not> in_hook w \<and> resolve_path E dirfd pathname = Some resolved
            \<and> is_workspace_path resolved = Some rel
            \<and> cache_path_for rel = Some cp \<and> lookup (os w) cp \<noteq> None \<longrightarrow>
            calls (snd (openat E w dirfd pathname flags va)) = calls w
          \<and> nsock (snd (openat E w dirfd pathname flags va)) = nsock w
          \<and> vsock_fd (snd (openat E w dirfd pathname flags va)) = vsock_fd w)
       \<and> (\<not> in_hook w \<and> resolve_path E dirfd pathname = Some resolved
            \<and> is_workspace_path resolved = Some rel \<and> rel \<noteq> []
            \<and> \<not> remote_is_dir E (w\<lparr>in_hook := True\<rparr>) rel
            \<and> openat E w dirfd pathname flags va = (Ok fd, w')
            \<and> lookup (os w') (CACHE_DIR @ rel) = lookup (os (snd (ensure_cached_file E
                   (w\<lparr>in_hook := True\<rparr>) rel))) (CACHE_DIR @ rel) \<longrightarrow>
            calls (snd (openat E w' dirfd pathname flags' va')) = calls w'
          \<and> nsock (snd (openat E w' dirfd pathname flags' va')) = nsock w'
          \<and> vsock_fd (snd (openat E w' dirfd pathname flags' va')) = vsock_fd w')"
proof -
  have a: "ensure_cached_file E w rel = (0, w)"
    if "cache_path_for rel = Some cp" "lookup (os w) cp \<noteq> None"
    using assms that by (rule ensure_hit)
  have b: "lookup (os w1) (CACHE_DIR @ rel) \<noteq> None \<and> ensure_cached_file E w1 rel = (0, w1)"
    if "ensure_cached_file E w rel = (0, w1)" "\<not> remote_is_dir E w rel"
    using ensure_success_exists [OF assms that] assms by (auto intro: ensure_hit)
  have b': "ensure_cached_file E w1 rel = (0, w1)"
    if "ensure_cached_file E w rel = (0, w1)" "lookup (os w1) (CACHE_DIR @ rel) \<noteq> None"
    using assms ensure_ok_cache_path [OF that(1)] that(2) by (intro ensure_hit) simp_all
  have c: "calls (snd (openat E w dirfd pathname flags va)) = calls w
          \<and> nsock (snd (openat E w dirfd pathname flags va)) = nsock w
          \<and> vsock_fd (snd (openat E w dirfd pathname flags va)) = vsock_fd w"
    if "\<not> in_hook w" "resolve_path E dirfd pathname = Some resolved"
      "is_workspace_path resolved = Some rel" "cache_path_for rel = Some cp"
      "lookup (os w) cp \<noteq> None"
    using assms that by (rule open_hit_no_calls)
  have d: "calls (snd (openat E w' dirfd pathname flags' va')) = calls w'
          \<and> nsock (snd (openat E w' dirfd pathname flags' va')) = nsock w'
          \<and> vsock_fd (snd (openat E w' dirfd pathname flags' va')) = vsock_fd w'"
    if h: "\<not> in_hook w" "resolve_path E dirfd pathname = Some resolved"
      "is_workspace_path resolved = Some rel" "rel \<noteq> []"
      "\<not> remote_is_dir E (w\<lparr>in_hook := True\<rparr>) rel"
      "openat E w dirfd pathname flags va = (Ok fd, w')"
      "lookup (os w') (CACHE_DIR @ rel) = lookup (os (snd (ensure_cached_file E
                   (w\<lparr>in_hook := True\<rparr>) rel))) (CACHE_DIR @ rel)"
  proof -
    from h(2) obtain p where p: "pathname = Some p"
      by (cases pathname) (simp_all add: resolve_path_def)
    obtain rc w1 where e: "ensure_cached_file E (w\<lparr>in_hook := True\<rparr>) rel = (rc, w1)"
      by (cases "ensure_cached_file E (w\<lparr>in_hook := True\<rparr>) rel")
    from h p e have ok: "\<not> rc < 0" and hk: "\<not> in_hook w'"
      by (auto simp: openat_def Let_def delegate_def split: if_splits option.splits)
    have "rc = 0"
    proof (rule ccontr)
      assume "rc \<noteq> 0"
      from ensure_failure_frame [OF e this mkdirs_added] ok show False by simp
    qed
    with e h(5) ensure_success_exists [OF assms, of "w\<lparr>in_hook := True\<rparr>" rel w1]
    have x: "cache_path_for rel = Some (CACHE_DIR @ rel)"
      "lookup (os w1) (CACHE_DIR @ rel) \<noteq> None"
      by simp_all
    with h(7) e have "lookup (os w') (CACHE_DIR @ rel) \<noteq> None" by simp
    from open_hit_no_calls [OF assms hk h(2,3) x(1) this] show ?thesis .
  qed
  show ?thesis using a b b' c d by blast
qed

theorem cached_entry_needs_no_host_witness:
  "ensure_cached_file tiny_env cached_world ''foo.txt'' = (0, cached_world)
   \<and> fst (openat tiny_env world0 AT_FDCWD (Some ''/workspace/foo.txt'') O_RDONLY 0) = Ok 3
   \<and> calls (snd (openat tiny_env world0 AT_FDCWD (Some ''/workspace/foo.txt'') O_RDONLY 0))
      = [stat_request ''foo.txt'', read_request ''foo.txt'' 0 3]
   \<and> calls (snd (openat tiny_env
        (snd (openat tiny_env world0 AT_FDCWD (Some ''/workspace/foo.txt'') O_RDONLY 0))
        AT_FDCWD (Some ''/workspace/foo.txt'') O_RDONLY 0))
      = calls (snd (openat tiny_env world0 AT_FDCWD (Some ''/workspace/foo.txt'') O_RDONLY 0))"
proof -
  have s: "stat_sees_fs tiny_env" by (simp add: tiny_env_def sim_stat_sees_fs)
  note t = cached_entry_needs_no_host [OF s]
  have 1: "cache_path_for ''foo.txt'' = Some ''/tmp/.wscache/foo.txt''
           \<and> lookup (os cached_world) ''/tmp/.wscache/foo.txt'' \<noteq> None"
    by (simp add: cache_path_foo cached_lookup)
  have 2: "\<not> in_hook world0
       \<and> resolve_path tiny_env AT_FDCWD (Some ''/workspace/foo.txt'') = Some ''/workspace/foo.txt''
       \<and> is_workspace_path ''/workspace/foo.txt'' = Some ''foo.txt'' \<and> ''foo.txt'' \<noteq> []
       \<and> \<not> remote_is_dir tiny_env (world0\<lparr>in_hook := True\<rparr>) ''foo.txt''
       \<and> openat tiny_env world0 AT_FDCWD (Some ''/workspace/foo.txt'') O_RDONLY 0
           = (Ok 3, snd (openat tiny_env world0 AT_FDCWD (Some ''/workspace/foo.txt'') O_RDONLY 0))
       \<and> lookup (os (snd (openat tiny_env world0 AT_FDCWD (Some ''/workspace/foo.txt'') O_RDONLY 0)))
            (CACHE_DIR @ ''foo.txt'')
          = lookup (os (snd (ensure_cached_file tiny_env (world0\<lparr>in_hook := True\<rparr>) ''foo.txt'')))
              (CACHE_DIR @ ''foo.txt'')"
    using tiny_first_open(1-3)
    by (simp add: resolve_foo workspace_foo world0_fields prod_eq_iff)
  from t [THEN conjunct1, rule_format, OF 1]
    t [THEN conjunct2, THEN conjunct2, THEN conjunct2, THEN conjunct2, rule_format, OF 2,
       where flags' = O_RDONLY and va' = 0]
    tiny_first_open(1,4)
  show ?thesis by simp
qed

text \<open>
  C5 as stated fails: for a remote directory the results of \<^verbatim>\<open>mkdir\<close> are ignored. With
  a \<^verbatim>\<open>mkdir\<close> of the cache entry that fails, \<^verbatim>\<open>ensure_cached_file\<close> returns \<open>0\<close>
  though the cache path names nothing, and the next call, as the next open of the path,
  sends a second \<^verbatim>\<open>STAT\<close>.
\<close>

theorem failed_mkdir_repeats_stat:
  "fst (ensure_cached_file tiny_env mkdir_fault_world ''docs'') = 0
   \<and> calls (snd (ensure_cached_file tiny_env mkdir_fault_world ''docs'')) = [stat_request ''docs'']
   \<and> lookup (os (snd (ensure_cached_file tiny_env mkdir_fault_world ''docs'')))
        ''/tmp/.wscache/docs'' = None
   \<and> fst (ensure_cached_file tiny_env
            (snd (ensure_cached_file tiny_env mkdir_fault_world ''docs'')) ''docs'') = 0
   \<and> calls (snd (ensure_cached_file tiny_env
                   (snd (ensure_cached_file tiny_env mkdir_fault_world ''docs'')) ''docs''))
       = [stat_request ''docs'', stat_request ''docs'']
   \<and> calls (snd (openat tiny_env
       (snd (openat tiny_env mkdir_fault_world AT_FDCWD (Some ''/workspace/docs'') O_RDONLY 0))
       AT_FDCWD (Some ''/workspace/docs'') O_RDONLY 0))
       = [stat_request ''docs'', stat_request ''docs'']"
  using mkdir_fault_run mkdir_fault_open by simp

subsection \<open>Short responses\<close>

text \<open>
  C6, as amended. A response with status \<^verbatim>\<open>OK\<close> and fewer than 22 bytes makes
  \<^verbatim>\<open>remote_stat\<close> fail; a response with status \<^verbatim>\<open>OK\<close> and fewer than 5 bytes makes
  \<^verbatim>\<open>remote_read_chunk\<close> return zero bytes, the end of the stream, not an error. In both
  cases the connection stays as it is: the descriptor is kept, and the next remote call
  connects without a new socket.
\<close>

theorem short_response_keeps_connection:
  assumes "vsock_connect E w = (0, wc)"
  shows "(send_request E wc (stat_request rel) = (Some resp, w') \<and> resp \<noteq> []
            \<and> resp ! 0 = STATUS_OK \<and> length resp < 22 \<longrightarrow>
            remote_stat E w rel = (None, w')
          \<and> vsock_fd w' = vsock_fd wc \<and> nsock w' = nsock wc
          \<and> vsock_connect E w' = (0, w'))
       \<and> (send_request E wc (read_request rel off len) = (Some resp, w') \<and> resp \<noteq> []
            \<and> resp ! 0 = STATUS_OK \<and> length resp < 5 \<longrightarrow>
            remote_read_chunk E w rel off len = (Some [], w')
          \<and> vsock_fd w' = vsock_fd wc \<and> nsock w' = nsock wc
          \<and> vsock_connect E w' = (0, w'))
       \<and> 0 \<le> vsock_fd wc"
proof -
  note c = vsock_connect_ok [OF assms]
  have k: "vsock_fd w' = vsock_fd wc \<and> nsock w' = nsock wc \<and> vsock_connect E w' = (0, w')"
    if "send_request E wc msg = (Some resp, w')" for msg
    using send_request_up [OF _ that] c by (simp add: vsock_connect_def)
  have s: "remote_stat E w rel = (None, w')"
    if "send_request E wc (stat_request rel) = (Some resp, w')" "resp \<noteq> []"
      "resp ! 0 = STATUS_OK" "length resp < 22"
    using that assms by (simp add: remote_stat_def)
  have r: "remote_read_chunk E w rel off len = (Some [], w')"
    if "send_request E wc (read_request rel off len) = (Some resp, w')" "resp \<noteq> []"
      "resp ! 0 = STATUS_OK" "length resp < 5"
    using that assms by (simp add: remote_read_chunk_def)
  show ?thesis using k s r c by blast
qed

theorem short_response_keeps_connection_witness:
  "remote_stat short_env world0 ''foo.txt''
     = (None, connected0\<lparr>calls := [stat_request ''foo.txt'']\<rparr>)
   \<and> remote_read_chunk short_env world0 ''foo.txt'' 0 16
     = (Some [], connected0\<lparr>calls := [read_request ''foo.txt'' 0 16]\<rparr>)"
proof -
  have s: "send_request short_env connected0 (stat_request ''foo.txt'')
             = (Some [0, 0, 0], connected0\<lparr>calls := [stat_request ''foo.txt'']\<rparr>)
           \<and> [0, 0, 0 :: byte] \<noteq> [] \<and> [0, 0, 0] ! 0 = STATUS_OK
           \<and> length [0, 0, 0 :: byte] < 22"
    by (simp add: short_request STATUS_OK_def)
  have r: "send_request short_env connected0 (read_request ''foo.txt'' 0 16)
             = (Some [0, 0, 0], connected0\<lparr>calls := [read_request ''foo.txt'' 0 16]\<rparr>)
           \<and> [0, 0, 0 :: byte] \<noteq> [] \<and> [0, 0, 0] ! 0 = STATUS_OK
           \<and> length [0, 0, 0 :: byte] < 5"
    by (simp add: short_request STATUS_OK_def)
  note t = short_response_keeps_connection [OF short_connect]
  from t [THEN conjunct1, rule_format, OF s] t [THEN conjunct2, THEN conjunct1, rule_format, OF r]
  show ?thesis by blast
qed

text \<open>
  C6 as stated fails: with a host that answers \<^verbatim>\<open>OK\<close> and two more bytes, the read
  returns success with no bytes, the status query fails, and after either the connection
  is still up (descriptor \<open>5\<close>), so that the next call does not reconnect.
\<close>

theorem short_read_response_is_end_of_stream:
  "fst (remote_read_chunk short_env world0 ''foo.txt'' 0 16) = Some []
   \<and> vsock_fd (snd (remote_read_chunk short_env world0 ''foo.txt'' 0 16)) = 5
   \<and> fst (remote_stat short_env world0 ''foo.txt'') = None
   \<and> vsock_fd (snd (remote_stat short_env world0 ''foo.txt'')) = 5
   \<and> vsock_connect short_env (snd (remote_stat short_env world0 ''foo.txt''))
       = (0, snd (remote_stat short_env world0 ''foo.txt''))"
proof -
  have s: "remote_stat short_env world0 ''foo.txt''
             = (None, connected0\<lparr>calls := [stat_request ''foo.txt'']\<rparr>)"
    by (simp add: remote_stat_def short_connect short_request STATUS_OK_def)
  have r: "remote_read_chunk short_env world0 ''foo.txt'' 0 16
             = (Some [], connected0\<lparr>calls := [read_request ''foo.txt'' 0 16]\<rparr>)"
    by (simp add: remote_read_chunk_def short_connect short_request STATUS_OK_def)
  show ?thesis
    by (simp add: s r vsock_connect_def connected0_fields)
qed

subsection \<open>Malformed frames\<close>

text \<open>
  C7. On a connection that is up, a bad response frame (the length not received, a
  declared length of zero or above 16 MiB, fewer bytes than declared) makes the remote
  call fail; the state it returns is disconnected (\<^verbatim>\<open>vsock_fd = -1\<close>) and holds exactly
  one more request than before (no retry); and the next remote call, of either kind,
  makes exactly one new \<^verbatim>\<open>socket\<close> call, whose descriptor becomes the connection
  where the socket and its \<^verbatim>\<open>connect\<close> succeed.
\<close>

theorem malformed_frame_disconnects:
  assumes "vsock_connect E w = (0, wc)"
  shows "(bad_frame (recvs (host E (length (calls w)) (stat_request rel))) \<longrightarrow>
            remote_stat E w rel
              = (None, wc\<lparr>calls := calls w @ [stat_request rel], vsock_fd := - 1\<rparr>)
          \<and> nsock (snd (remote_stat E
                 (wc\<lparr>calls := calls w @ [stat_request rel], vsock_fd := - 1\<rparr>) rel'))
              = Suc (nsock wc)
          \<and> nsock (snd (remote_read_chunk E
                 (wc\<lparr>calls := calls w @ [stat_request rel], vsock_fd := - 1\<rparr>) rel' off' len'))
              = Suc (nsock wc))
       \<and> (bad_frame (recvs (host E (length (calls w)) (read_request rel off len))) \<longrightarrow>
            remote_read_chunk E w rel off len
              = (None, wc\<lparr>calls := calls w @ [read_request rel off len], vsock_fd := - 1\<rparr>)
          \<and> nsock (snd (remote_stat E
                 (wc\<lparr>calls := calls w @ [read_request rel off len], vsock_fd := - 1\<rparr>) rel'))
              = Suc (nsock wc)
          \<and> nsock (snd (remote_read_chunk E
                 (wc\<lparr>calls := calls w @ [read_request rel off len], vsock_fd := - 1\<rparr>)
                 rel' off' len'))
              = Suc (nsock wc))
       \<and> (0 \<le> socket_fd E (nsock wc) \<and> connect_ok E (nsock wc) \<longrightarrow>
            vsock_connect E (wc\<lparr>calls := cs, vsock_fd := - 1\<rparr>)
              = (0, wc\<lparr>calls := cs, nsock := Suc (nsock wc),
                       vsock_fd := socket_fd E (nsock wc)\<rparr>))
       \<and> 0 \<le> vsock_fd wc"
proof -
  note c = vsock_connect_ok [OF assms]
  have n: "vsock_connect E (wc\<lparr>calls := cs, vsock_fd := - 1\<rparr>)
              = (0, wc\<lparr>calls := cs, nsock := Suc (nsock wc),
                       vsock_fd := socket_fd E (nsock wc)\<rparr>)"
    if "0 \<le> socket_fd E (nsock wc)" "connect_ok E (nsock wc)"
    using that by (simp add: vsock_connect_def Let_def)
  have s: "remote_stat E w rel
              = (None, wc\<lparr>calls := calls w @ [stat_request rel], vsock_fd := - 1\<rparr>)"
    if "bad_frame (recvs (host E (length (calls w)) (stat_request rel)))"
    using that c assms send_request_bad_frame [of E wc "stat_request rel"]
    by (simp add: remote_stat_def vsock_disconnect_def)
  have r: "remote_read_chunk E w rel off len
              = (None, wc\<lparr>calls := calls w @ [read_request rel off len], vsock_fd := - 1\<rparr>)"
    if "bad_frame (recvs (host E (length (calls w)) (read_request rel off len)))"
    using that c assms send_request_bad_frame [of E wc "read_request rel off len"]
    by (simp add: remote_read_chunk_def vsock_disconnect_def)
  show ?thesis
    using s r c n by (simp add: remote_stat_nsock remote_read_chunk_nsock vsock_connect_fresh)
qed

theorem malformed_frame_disconnects_witness:
  "remote_stat oversize_env world0 ''foo.txt''
     = (None, connected0\<lparr>calls := calls world0 @ [stat_request ''foo.txt''], vsock_fd := - 1\<rparr>)
   \<and> nsock (snd (remote_stat oversize_env
        (connected0\<lparr>calls := calls world0 @ [stat_request ''foo.txt''], vsock_fd := - 1\<rparr>)
        ''foo.txt'')) = Suc (nsock connected0)
   \<and> remote_read_chunk midframe_env world0 ''foo.txt'' 0 16
     = (None, connected0\<lparr>calls := calls world0 @ [read_request ''foo.txt'' 0 16],
                           vsock_fd := - 1\<rparr>)"
proof -
  have a: "bad_frame (recvs (host oversize_env (length (calls world0)) (stat_request ''foo.txt'')))"
    by (simp add: oversize_env_def sim_env_fields bad_frame_def rd32_def)
  have b: "bad_frame (recvs (host midframe_env (length (calls world0))
             (read_request ''foo.txt'' 0 16)))"
    by (simp add: midframe_env_def sim_env_fields bad_frame_def rd32_def)
  have c: "vsock_connect oversize_env world0 = (0, connected0)"
    "vsock_connect midframe_env world0 = (0, connected0)"
    by (simp_all add: oversize_env_def midframe_env_def connect_world0)
  show ?thesis
    using malformed_frame_disconnects [OF c(1), where rel = "''foo.txt''" and rel' = "''foo.txt''"]
      malformed_frame_disconnects [OF c(2), where rel = "''foo.txt''" and off = 0 and len = 16]
      a b
    by simp
qed

subsection \<open>The open of a cached object\<close>

text \<open>
  C8. What the code does for a workspace path other than the root, opened without
  \<^verbatim>\<open>O_WRONLY\<close> or \<^verbatim>\<open>O_RDWR\<close>, once \<^verbatim>\<open>ensure_cached_file\<close> has succeeded: the call is
  the real \<^verbatim>\<open>openat\<close> at \<^verbatim>\<open>AT_FDCWD\<close> on the cache path with mode \<open>0\<close>, and its result
  is returned as it is. Of the flags only \<^verbatim>\<open>O_CREAT\<close> and \<^verbatim>\<open>O_EXCL\<close> are cleared:
  \<^verbatim>\<open>O_TRUNC\<close> and \<^verbatim>\<open>O_APPEND\<close> reach the real open as they were given, which is not the
  stripping of the write-intent flags that the claim states.
\<close>

theorem cached_open_delegates:
  assumes "\<not> in_hook w"
    and "resolve_path E dirfd pathname = Some resolved"
    and "is_workspace_path resolved = Some rel"
    and "rel \<noteq> []"
    and "flags AND (O_WRONLY OR O_RDWR) = 0"
    and "ensure_cached_file E (w\<lparr>in_hook := True\<rparr>) rel = (rc, w1)"
    and "\<not> rc < 0"
  shows "openat E w dirfd pathname flags va =
           delegate (w1\<lparr>in_hook := False\<rparr>)
             (real_openat E (os w1) AT_FDCWD (Some (CACHE_DIR @ rel))
                (flags AND NOT (O_CREAT OR O_EXCL)) 0)
       \<and> (flags AND NOT (O_CREAT OR O_EXCL)) AND O_TRUNC = flags AND O_TRUNC
       \<and> (flags AND NOT (O_CREAT OR O_EXCL)) AND O_APPEND = flags AND O_APPEND
       \<and> (flags AND NOT (O_CREAT OR O_EXCL)) AND (O_CREAT OR O_EXCL) = 0"
proof -
  from assms(2) obtain p where p: "pathname = Some p"
    by (cases pathname) (simp_all add: resolve_path_def)
  have o: "openat E w dirfd pathname flags va =
           delegate (w1\<lparr>in_hook := False\<rparr>)
             (real_openat E (os w1) AT_FDCWD (Some (CACHE_DIR @ rel))
                (flags AND NOT (O_CREAT OR O_EXCL)) 0)"
    using assms p ensure_ok_cache_path [OF assms(6,7)]
    by (simp add: openat_def Let_def)
  have "O_TRUNC AND NOT (O_CREAT OR O_EXCL) = O_TRUNC"
    "O_APPEND AND NOT (O_CREAT OR O_EXCL) = O_APPEND"
    by (simp_all add: O_TRUNC_def O_APPEND_def O_CREAT_def O_EXCL_def)
  then have k: "(flags AND NOT (O_CREAT OR O_EXCL)) AND O_TRUNC = flags AND O_TRUNC"
    "(flags AND NOT (O_CREAT OR O_EXCL)) AND O_APPEND = flags AND O_APPEND"
    by (simp_all only: keep_bits)
  have z: "(flags AND NOT (O_CREAT OR O_EXCL)) AND (O_CREAT OR O_EXCL) = 0"
    by (rule mask_cleared)
  show ?thesis by (intro conjI o k z)
qed

theorem cached_open_delegates_witness:
  "openat spy_env cached_world AT_FDCWD (Some ''/workspace/foo.txt'')
     (O_RDONLY OR O_TRUNC OR O_CREAT OR O_EXCL) 0
     = (Ok (uint O_TRUNC), cached_world)
   \<and> O_TRUNC \<noteq> 0"
proof -
  have "openat spy_env cached_world AT_FDCWD (Some ''/workspace/foo.txt'')
          (O_RDONLY OR O_TRUNC OR O_CREAT OR O_EXCL) 0 =
        delegate (cached_world\<lparr>in_hook := True\<rparr>\<lparr>in_hook := False\<rparr>)
          (real_openat spy_env (os (cached_world\<lparr>in_hook := True\<rparr>)) AT_FDCWD
             (Some (CACHE_DIR @ ''foo.txt''))
             ((O_RDONLY OR O_TRUNC OR O_CREAT OR O_EXCL) AND NOT (O_CREAT OR O_EXCL)) 0)"
    by (rule cached_open_delegates [THEN conjunct1,
          OF _ resolve_foo workspace_foo _ _ ensure_cached_hit])
      (simp_all add: cached_world_fields O_CREAT_def O_EXCL_def O_WRONLY_def O_RDWR_def
         O_RDONLY_def O_TRUNC_def)
  then show ?thesis
    by (simp add: delegate_def spy_open cached_world_fields O_CREAT_def O_EXCL_def
        O_RDONLY_def O_TRUNC_def)
qed

text \<open>
  C8, the defect at work. The cache holds the three bytes of \<^verbatim>\<open>foo.txt\<close> that the host
  has. An open with \<^verbatim>\<open>O_RDONLY | O_TRUNC\<close> passes the read-only check and succeeds, and
  the real open has emptied the cached copy; the next read-only open is a cache hit that
  sends no request and finds the empty file.
\<close>

theorem truncating_open_empties_cached_copy:
  "host_files [10, 20, 30] ''foo.txt''
     = Some \<lparr>r_mode = 0x1A4, r_mtime = 1000, r_is_dir = False, r_data = [10, 20, 30]\<rparr>
   \<and> lookup (os cached_world) ''/tmp/.wscache/foo.txt'' = Some (File [10, 20, 30])
   \<and> (O_RDONLY OR O_TRUNC) AND (O_WRONLY OR O_RDWR) = 0
   \<and> fst (openat tiny_env cached_world AT_FDCWD (Some ''/workspace/foo.txt'')
            (O_RDONLY OR O_TRUNC) 0) = Ok 3
   \<and> lookup (os (snd (openat tiny_env cached_world AT_FDCWD (Some ''/workspace/foo.txt'')
                        (O_RDONLY OR O_TRUNC) 0))) ''/tmp/.wscache/foo.txt'' = Some (File [])
   \<and> fst (openat tiny_env
            (snd (openat tiny_env cached_world AT_FDCWD (Some ''/workspace/foo.txt'')
                    (O_RDONLY OR O_TRUNC) 0))
            AT_FDCWD (Some ''/workspace/foo.txt'') O_RDONLY 0) = Ok 3
   \<and> calls (snd (openat tiny_env
            (snd (openat tiny_env cached_world AT_FDCWD (Some ''/workspace/foo.txt'')
                    (O_RDONLY OR O_TRUNC) 0))
            AT_FDCWD (Some ''/workspace/foo.txt'') O_RDONLY 0)) = []
   \<and> lookup (os (snd (openat tiny_env
            (snd (openat tiny_env cached_world AT_FDCWD (Some ''/workspace/foo.txt'')
                    (O_RDONLY OR O_TRUNC) 0))
            AT_FDCWD (Some ''/workspace/foo.txt'') O_RDONLY 0))) ''/tmp/.wscache/foo.txt''
       = Some (File [])"
proof -
  have "(O_RDONLY OR O_TRUNC) AND (O_WRONLY OR O_RDWR) = 0"
    by (simp add: O_RDONLY_def O_TRUNC_def O_WRONLY_def O_RDWR_def)
  with truncate_run cached_lookup host_files_fields(1) [of "[10, 20, 30]"]
  show ?thesis by simp
qed

subsection \<open>The root of the namespace\<close>

text \<open>
  C9. For the root of the namespace (an empty relative path) no entry point contacts the
  host. A status query returns a made-up directory status (type directory, mode
  \<^verbatim>\<open>0755\<close>, two links) and an access check without \<^verbatim>\<open>W_OK\<close> succeeds, both leaving the
  state as it was; an open without a write flag is the real open of the cache root with
  \<^verbatim>\<open>O_RDONLY | O_DIRECTORY\<close>, after a \<^verbatim>\<open>mkdir\<close> of the cache root; a stream open goes
  through that open. None of them sends a request or touches the connection.
\<close>

theorem namespace_root_is_local:
  assumes "\<not> in_hook w"
    and "resolve_path E dirfd pathname = Some resolved"
    and "is_workspace_path resolved = Some []"
  shows "fstatat E w dirfd pathname sflags = (Ok root_stat, w)
       \<and> S_ISDIR (st_mode root_stat) \<and> st_mode root_stat AND 0xFFF = 0x1ED
       \<and> st_nlink root_stat = 2
       \<and> (amode AND W_OK = 0 \<longrightarrow> faccessat E w dirfd pathname amode aflags = (Ok (), w))
       \<and> (flags AND (O_WRONLY OR O_RDWR) = 0 \<longrightarrow>
            openat E w dirfd pathname flags va =
              delegate w (real_openat E (snd (sys_mkdir (os w) CACHE_DIR)) AT_FDCWD
                            (Some CACHE_DIR) (O_RDONLY OR O_DIRECTORY) 0)
          \<and> calls (snd (openat E w dirfd pathname flags va)) = calls w
          \<and> nsock (snd (openat E w dirfd pathname flags va)) = nsock w
          \<and> vsock_fd (snd (openat E w dirfd pathname flags va)) = vsock_fd w)
       \<and> (dirfd = AT_FDCWD \<longrightarrow>
            calls (snd (fopen E w pathname fmode)) = calls w
          \<and> nsock (snd (fopen E w pathname fmode)) = nsock w
          \<and> vsock_fd (snd (fopen E w pathname fmode)) = vsock_fd w)"
proof -
  from assms(2) obtain p where p: "pathname = Some p"
    by (cases pathname) (simp_all add: resolve_path_def)
  have w: "w\<lparr>in_hook := False\<rparr> = w" using assms(1) by simp
  have s: "fstatat E w dirfd pathname sflags = (Ok root_stat, w)"
    using assms p by (simp add: fstatat_def w)
  have m: "S_ISDIR (st_mode root_stat) \<and> st_mode root_stat AND 0xFFF = 0x1ED
       \<and> st_nlink root_stat = 2"
    by (simp add: root_stat_def S_ISDIR_def S_IFDIR_def S_IFMT_def)
  have a: "faccessat E w dirfd pathname amode aflags = (Ok (), w)" if "amode AND W_OK = 0"
    using assms p that by (simp add: faccessat_def w)
  have o: "openat E w dirfd pathname fl v =
              delegate w (real_openat E (snd (sys_mkdir (os w) CACHE_DIR)) AT_FDCWD
                            (Some CACHE_DIR) (O_RDONLY OR O_DIRECTORY) 0)"
    if "fl AND (O_WRONLY OR O_RDWR) = 0" for fl v
    using assms p that by (simp add: openat_def Let_def w)
  have z: "O_RDONLY AND (O_WRONLY OR O_RDWR) = 0" by (simp add: O_RDONLY_def)
  have f: "calls (snd (fopen E w pathname fmode)) = calls w
          \<and> nsock (snd (fopen E w pathname fmode)) = nsock w
          \<and> vsock_fd (snd (fopen E w pathname fmode)) = vsock_fd w" if "dirfd = AT_FDCWD"
    using assms p that o [OF z, of 0]
    by (auto simp: fopen_def delegate_def split: prod.splits result.splits)
  show ?thesis using s m a o f by (simp add: delegate_def)
qed

theorem namespace_root_is_local_witness:
  "fstatat E0 world0 AT_FDCWD (Some ''/workspace'') 0 = (Ok root_stat, world0)
   \<and> faccessat E0 world0 AT_FDCWD (Some ''/workspace'') 5 0 = (Ok (), world0)
   \<and> openat E0 world0 AT_FDCWD (Some ''/workspace'') O_DIRECTORY 0 =
        delegate world0 (real_openat E0 (snd (sys_mkdir (os world0) CACHE_DIR)) AT_FDCWD
                            (Some CACHE_DIR) (O_RDONLY OR O_DIRECTORY) 0)
   \<and> calls (snd (fopen E0 world0 (Some ''/workspace'') ''r'')) = []"
  using namespace_root_is_local [of world0 E0 AT_FDCWD "Some ''/workspace''" "''/workspace''"
      0 5 0 O_DIRECTORY 0 "''r''"]
  by (simp add: resolve_root workspace_root world0_fields W_OK_def O_DIRECTORY_def
      O_WRONLY_def O_RDWR_def)

subsection \<open>Status queries and access checks\<close>

text \<open>
  C10. A status query or an access check on a workspace path other than the root leaves
  the local file system as it was (no file or directory is made under the cache root) and
  puts at most one request on the wire, a \<^verbatim>\<open>STAT\<close> for the relative path: none where the
  object is cached or no connection can be made, never a \<^verbatim>\<open>READ\<close>.
\<close>

theorem status_queries_do_not_populate:
  assumes "\<not> in_hook w"
    and "resolve_path E dirfd pathname = Some resolved"
    and "is_workspace_path resolved = Some rel"
    and "rel \<noteq> []"
  shows "os (snd (fstatat E w dirfd pathname sflags)) = os w
       \<and> (calls (snd (fstatat E w dirfd pathname sflags)) = calls w
          \<or> calls (snd (fstatat E w dirfd pathname sflags)) = calls w @ [stat_request rel])
       \<and> os (snd (faccessat E w dirfd pathname amode aflags)) = os w
       \<and> (calls (snd (faccessat E w dirfd pathname amode aflags)) = calls w
          \<or> calls (snd (faccessat E w dirfd pathname amode aflags)) = calls w @ [stat_request rel])
       \<and> hd (stat_request rel) = OP_STAT"
proof -
  from assms(2) obtain p where p: "pathname = Some p"
    by (cases pathname) (simp_all add: resolve_path_def)
  obtain r w1 where e: "ensure_cached_stat E (w\<lparr>in_hook := True\<rparr>) rel = (r, w1)"
    by (cases "ensure_cached_stat E (w\<lparr>in_hook := True\<rparr>) rel")
  note fr = ensure_cached_stat_frame [OF e]
  have s: "os (snd (fstatat E w dirfd pathname sflags)) = os w
       \<and> (calls (snd (fstatat E w dirfd pathname sflags)) = calls w
          \<or> calls (snd (fstatat E w dirfd pathname sflags)) = calls w @ [stat_request rel])"
    using assms p e fr by (auto simp: fstatat_def split: option.splits)
  have a: "os (snd (faccessat E w dirfd pathname amode aflags)) = os w
       \<and> (calls (snd (faccessat E w dirfd pathname amode aflags)) = calls w
          \<or> calls (snd (faccessat E w dirfd pathname amode aflags)) = calls w @ [stat_request rel])"
    using assms p e fr by (auto simp: faccessat_def split: option.splits)
  show ?thesis using s a by (simp add: stat_request_def)
qed

theorem status_queries_do_not_populate_witness:
  "os (snd (fstatat E0 world0 AT_FDCWD (Some ''/workspace/foo.txt'') 0)) = os world0
   \<and> (calls (snd (fstatat E0 world0 AT_FDCWD (Some ''/workspace/foo.txt'') 0)) = calls world0
      \<or> calls (snd (fstatat E0 world0 AT_FDCWD (Some ''/workspace/foo.txt'') 0))
          = calls world0 @ [stat_request ''foo.txt''])
   \<and> os (snd (faccessat E0 world0 AT_FDCWD (Some ''/workspace/foo.txt'') 4 0)) = os world0
   \<and> hd (stat_request ''foo.txt'') = OP_STAT"
  using status_queries_do_not_populate [of world0 E0 AT_FDCWD "Some ''/workspace/foo.txt''"
      "''/workspace/foo.txt''" "''foo.txt''" 0 4 0]
  by (simp add: resolve_foo workspace_foo world0_fields)

end
